theory Spec2Isabelle
  imports Main "HOL-Library.Word"
begin

unbundle bit_operations_syntax

section \<open>Data model of main.c\<close>

text \<open>
  The program is the control core of a line follower on a PIC18F87K22, built with XC8,
  where plain \<^verbatim>\<open>char\<close> is an unsigned 8-bit integer, \<^verbatim>\<open>signed char\<close> a signed one
  and \<^verbatim>\<open>short\<close> a signed 16-bit integer. Each is a word of its width; signed values
  are read with \<open>sint\<close>.
\<close>

type_synonym char8 = "8 word"
type_synonym schar8 = "8 word"
type_synonym short16 = "16 word"

text \<open>
  The three global sensor structs are addressed through the pointers \<^verbatim>\<open>&IR_1\<close>,
  \<^verbatim>\<open>&IR_2\<close> and \<^verbatim>\<open>&IR_3\<close>; a pointer to a sensor is one of three names.
\<close>

datatype sensor_ref = IR_1 | IR_2 | IR_3

text \<open>
  Modelled from the spec: \<^verbatim>\<open>struct IRSensor\<close> is declared in ir_sensors.h, which is
  not part of the sources. The spec lists its fields in the order of the initialisers
  \<^verbatim>\<open>{0b00000101, 0, 6, 1, 0}\<close>: the sampling-channel selector, the bit index in the
  line pattern, the bit index in the display pattern, a signed offset to the next sensor
  and the reference to the next sensor of the ring. main.c itself reads \<^verbatim>\<open>index\<close>,
  \<^verbatim>\<open>led\<close> and \<^verbatim>\<open>next_sensor\<close>.
\<close>

record IRSensor =
  channel :: char8
  index :: nat
  led :: nat
  offset :: int
  next_sensor :: sensor_ref

text \<open>
  Modelled from the spec: \<^verbatim>\<open>struct Encoder\<close> is declared in encoders.h, which is not
  part of the sources. The spec gives two pin identifiers, a shift history of the last
  pin pairs and a running signed tick count; main.c reads and writes \<^verbatim>\<open>reading\<close>
  and \<^verbatim>\<open>count\<close>. Only the low four bits of \<^verbatim>\<open>reading\<close> are ever used. The width
  of \<^verbatim>\<open>count\<close> is not known, so it is an unbounded integer here.
\<close>

record Encoder =
  pin_a :: nat
  pin_b :: nat
  reading :: char8
  count :: int

text \<open>
  Calls of the collaborators whose code is outside main.c (motors, display, delivery,
  sleep, ADC), and the start of a conversion, are recorded in the order they happen.
\<close>

datatype call =
    Execute_delivery
  | Pause_delivery
  | Load_byte char8
  | Delay_ms nat
  | Motors_turn_around
  | Enter_sleep_mode
  | Motors_drive schar8 schar8
  | Read_and_update_ADC sensor_ref
  | ADC_go
  | Display_byte

text \<open>
  The globals of main.c, the local \<^verbatim>\<open>adc_reading_number\<close> of \<^verbatim>\<open>main\<close> (it lives
  across the iterations of the main loop), the interrupt bits the handlers read and
  write, and the record of the external calls. The global \<^verbatim>\<open>encoder_readings_old\<close> is
  never used and is left out.
\<close>

record state =
  go_flag :: char8
  go_flag_0 :: char8
  button_state :: char8
  button_state_0 :: char8
  count_lost :: char8
  count_stop :: char8
  adc_flag :: char8
  adc_reading :: short16
  IR_meas_array :: char8
  IR_temp_array :: char8
  IR :: "sensor_ref \<Rightarrow> IRSensor"
  sensor_read :: sensor_ref
  sensor_next :: sensor_ref
  encoder_A :: Encoder
  encoder_B :: Encoder
  display_value :: char8
  blink_count :: char8
  adc_reading_number :: char8
  INT0IE :: bool
  INT0IF :: bool
  CCP7IE :: bool
  CCP7IF :: bool
  ADIE :: bool
  ADIF :: bool
  RBIF :: bool
  CCP6IF :: bool
  CCP3IF :: bool
  SSP1IF :: bool
  calls :: "call list"

definition READINGS_MAX :: char8 where
  "READINGS_MAX = 2"

definition ADC_CUTOFF :: short16 where
  "ADC_CUTOFF = 3500"

text \<open>
  The sensor structs as \<^verbatim>\<open>init\<close> leaves them: the initialisers of lines 71 to 73 with
  the ring closed by lines 210 to 212.
\<close>

fun IR_structs :: "sensor_ref \<Rightarrow> IRSensor" where
  "IR_structs IR_1 = \<lparr>channel = 5, index = 0, led = 6, offset = 1, next_sensor = IR_2\<rparr>"
| "IR_structs IR_2 = \<lparr>channel = 9, index = 1, led = 5, offset = 0, next_sensor = IR_3\<rparr>"
| "IR_structs IR_3 = \<lparr>channel = 13, index = 2, led = 4, offset = -1, next_sensor = IR_1\<rparr>"

section \<open>Steering classifier\<close>

text \<open>
  \<^verbatim>\<open>convert_array_to_inputs(dcR, dcL, meas)\<close> writes through the two pointers and
  returns \<^verbatim>\<open>status\<close>. The contents of the two pointees before the call are arguments,
  their contents after the call are results. A cell that holds no assigned value is
  \<open>None\<close>: the caller passes uninitialised locals, and \<^verbatim>\<open>status\<close> itself is left
  unassigned when no case of the switch matches.
\<close>

definition convert_array_to_inputs ::
  "schar8 option \<Rightarrow> schar8 option \<Rightarrow> char8 \<Rightarrow> schar8 option \<times> schar8 option \<times> char8 option" where
  "convert_array_to_inputs dcR dcL meas =
    (if meas = 0 then (dcR, dcL, Some 1)
     else if meas = 5 then (dcR, dcL, Some 1)
     else if meas = 7 then (dcR, dcL, Some 2)
     else if meas = 1 then (Some 50, Some 0, Some 0)
     else if meas = 3 then (Some 35, Some 15, Some 0)
     else if meas = 2 then (Some 25, Some 25, Some 0)
     else if meas = 6 then (Some 15, Some 35, Some 0)
     else if meas = 4 then (Some 0, Some 50, Some 0)
     else (dcR, dcL, None))"

section \<open>Sensor sampler\<close>

text \<open>
  Modelled from the spec: \<^verbatim>\<open>convert_measurement_to_binary\<close> is defined in
  ir_sensors.h, which is not part of the sources. The spec's binarisation rule is: raw
  analog value at or above the cutoff gives a set bit, otherwise a cleared one.
\<close>

definition convert_measurement_to_binary :: "short16 \<Rightarrow> short16 \<Rightarrow> char8" where
  "convert_measurement_to_binary raw cutoff = (if sint cutoff \<le> sint raw then 1 else 0)"

text \<open>
  \<^verbatim>\<open>process_measurement(reading, meas, disp)\<close> reads the global \<^verbatim>\<open>sensor_read\<close> and
  writes through its two pointers: the contents of the pointees are passed in and
  returned. The shifted constant is an \<^verbatim>\<open>int\<close> that the compound assignment cuts to
  the eight bits of the \<^verbatim>\<open>char\<close>.
\<close>

definition process_measurement :: "state \<Rightarrow> short16 \<Rightarrow> char8 \<Rightarrow> char8 \<Rightarrow> char8 \<times> char8" where
  "process_measurement s raw meas disp =
    (let val = convert_measurement_to_binary raw ADC_CUTOFF in
     if val \<noteq> 0
     then (meas OR push_bit (index (IR s (sensor_read s))) 1,
           disp OR push_bit (led (IR s (sensor_read s))) 1)
     else (meas AND NOT (push_bit (index (IR s (sensor_read s))) 1),
           disp AND NOT (push_bit (led (IR s (sensor_read s))) 1)))"

text \<open>
  \<^verbatim>\<open>update_sensor(reading)\<close> returns the counter and updates the two cursors. Its
  parameter is \<open>rdg\<close> here, and the raw value passed to \<^verbatim>\<open>process_measurement\<close> is
  \<open>raw\<close>, since \<open>reading\<close> names the field of the encoder struct.
\<close>

definition update_sensor :: "char8 \<Rightarrow> state \<Rightarrow> char8 \<times> state" where
  "update_sensor rdg s =
    (if sensor_next s \<noteq> sensor_read s
     then (0, s\<lparr>sensor_read := sensor_next s\<rparr>)
     else if rdg = READINGS_MAX
     then (rdg, s\<lparr>sensor_next := next_sensor (IR s (sensor_read s))\<rparr>)
     else (rdg, s))"

section \<open>Encoder decoder\<close>

definition lookup_table :: "int list" where
  "lookup_table = [0, -1, 1, 0,  1, 0, 0, -1,  -1, 0, 0, 1,  0, 1, -1, 0]"

text \<open>
  \<^verbatim>\<open>update_encoders()\<close> reads PORTB, which is its argument here. The table index is
  masked with 0x0F, so it is always below 16.
\<close>

definition update_encoders :: "char8 \<Rightarrow> state \<Rightarrow> state" where
  "update_encoders PORTB s =
    (let enc_dual = drop_bit 4 (PORTB AND 0xF0);
         r1 = push_bit 2 (reading (encoder_A s));
         test = enc_dual AND 3;
         r2 = r1 OR test
     in s\<lparr>encoder_A := (encoder_A s)\<lparr>reading := r2,
            count := count (encoder_A s) + lookup_table ! unat (r2 AND 0x0F)\<rparr>\<rparr>)"

section \<open>The main loop\<close>

text \<open>One iteration of \<^verbatim>\<open>while(1)\<close> in \<^verbatim>\<open>main\<close> is five blocks in sequence.\<close>

definition main_go_edge :: "state \<Rightarrow> state" where
  "main_go_edge s =
    (if go_flag s \<noteq> go_flag_0 s
     then (let s1 = (if go_flag s = 1 then s\<lparr>calls := calls s @ [Execute_delivery]\<rparr>
                     else if go_flag s = 0 then s\<lparr>calls := calls s @ [Pause_delivery]\<rparr>
                     else s)
           in s1\<lparr>go_flag_0 := go_flag s1\<rparr>)
     else s)"

definition main_publish :: "state \<Rightarrow> state" where
  "main_publish s =
    (if sensor_read s = IR_1 \<and> adc_reading_number s = 0
     then s\<lparr>IR_meas_array := IR_temp_array s\<rparr>
     else s)"

definition main_adc :: "state \<Rightarrow> state" where
  "main_adc s =
    (if adc_flag s \<noteq> 0
     then (let s1 = s\<lparr>adc_reading_number := adc_reading_number s + 1\<rparr>;
               s2 = (if adc_reading_number s1 \<noteq> 1
                     then (let (m, d) = process_measurement s1 (adc_reading s1)
                                          (IR_temp_array s1) (display_value s1);
                               s3 = s1\<lparr>IR_temp_array := m, display_value := d\<rparr>;
                               (n, s4) = update_sensor (adc_reading_number s3) s3
                           in s4\<lparr>adc_reading_number := n\<rparr>)
                     else s1)
           in s2\<lparr>adc_flag := 0, calls := calls s2 @ [ADC_go]\<rparr>)
     else s)"

text \<open>
  The two alert loops \<^verbatim>\<open>for (int i = 0; i < n; ++i)\<close> share their body: the full
  display on, a delay, the display off, the same delay.
\<close>

function blink_loop :: "nat \<Rightarrow> nat \<Rightarrow> nat \<Rightarrow> state \<Rightarrow> state" where
  "blink_loop i n ms s =
    (if i < n
     then blink_loop (i + 1) n ms
            (s\<lparr>calls := calls s @ [Load_byte 0xFF, Delay_ms ms, Load_byte 0x00, Delay_ms ms]\<rparr>)
     else s)"
  by pat_completeness auto
termination
  by (relation "measure (\<lambda>(i, n, ms, s). n - i)") auto

definition main_lost :: "state \<Rightarrow> state" where
  "main_lost s =
    (if 10 < count_lost s
     then (let s1 = s\<lparr>calls := calls s @ [Pause_delivery]\<rparr>;
               s2 = blink_loop 0 10 100 s1
           in s2\<lparr>go_flag := 0, go_flag_0 := 0, count_lost := 0\<rparr>)
     else s)"

definition main_stop :: "state \<Rightarrow> state" where
  "main_stop s =
    (if 10 < count_stop s
     then (let s1 = s\<lparr>calls := calls s @ [Pause_delivery]\<rparr>;
               s2 = blink_loop 0 2 1000 s1;
               s3 = s2\<lparr>calls := calls s2 @ [Motors_turn_around]\<rparr>;
               s4 = s3\<lparr>go_flag := 0, go_flag_0 := 0, count_stop := 0\<rparr>;
               s5 = s4\<lparr>calls := calls s4 @ [Enter_sleep_mode]\<rparr>
           in s5\<lparr>ADIE := True\<rparr>)
     else s)"

definition main_loop_body :: "state \<Rightarrow> state" where
  "main_loop_body s = main_stop (main_lost (main_adc (main_publish (main_go_edge s))))"

section \<open>Interrupt handlers\<close>

text \<open>
  Each branch of the two dispatch loops is a function of the state and of what the
  branch reads from the hardware. The writes to the compare registers (CCPR7, CCPR6,
  CCPR3) only set the time of the next event and are left out.

  \<^verbatim>\<open>HiPriISR\<close> has the display branch, which calls \<^verbatim>\<open>display_byte\<close>, and the
  button branch, which reads the pin RB0.
\<close>

definition HiPriISR_SSP1IF :: "state \<Rightarrow> state" where
  "HiPriISR_SSP1IF s = s\<lparr>calls := calls s @ [Display_byte], SSP1IF := False\<rparr>"

definition HiPriISR_INT0 :: "bool \<Rightarrow> state \<Rightarrow> state" where
  "HiPriISR_INT0 RB0 s =
    s\<lparr>CCP7IF := False, CCP7IE := True, INT0IE := False, INT0IF := False,
      button_state_0 := of_bool RB0\<rparr>"

definition LoPriISR_ADIF :: "short16 \<Rightarrow> state \<Rightarrow> state" where
  "LoPriISR_ADIF result s =
    s\<lparr>calls := calls s @ [Read_and_update_ADC (sensor_next s)],
      adc_reading := result, adc_flag := 1, ADIF := False\<rparr>"

definition LoPriISR_RBIF :: "char8 \<Rightarrow> state \<Rightarrow> state" where
  "LoPriISR_RBIF PORTB s = (update_encoders PORTB s)\<lparr>RBIF := False\<rparr>"

text \<open>
  The debounce branch calls \<^verbatim>\<open>go_button_handler\<close>, which is defined in go_button.h
  and is not part of the sources: it is the parameter \<open>handler\<close>.
\<close>

definition LoPriISR_CCP7 :: "(char8 \<Rightarrow> char8) \<Rightarrow> bool \<Rightarrow> state \<Rightarrow> state" where
  "LoPriISR_CCP7 handler RB0 s =
    (let s1 = s\<lparr>button_state := of_bool RB0\<rparr>;
         s2 = (if button_state s1 \<noteq> 0 \<and> button_state_0 s1 \<noteq> 0
               then s1\<lparr>go_flag := handler (go_flag s1)\<rparr>
               else s1)
     in s2\<lparr>CCP7IE := False, CCP7IF := False, INT0IF := False, INT0IE := True\<rparr>)"

text \<open>
  Modelled from the spec: \<^verbatim>\<open>go_button_handler\<close> of go_button.h. The spec says a
  confirmed button event inverts the go latch, whose two values are 0 (paused) and
  1 (running).
\<close>

definition go_button_handler :: "char8 \<Rightarrow> char8" where
  "go_button_handler flag = (if flag = 0 then 1 else 0)"

text \<open>
  The display branch calls \<^verbatim>\<open>blink_handler(blink_count, &display_value)\<close> of
  shift_register.h, not part of the sources: it is the parameter \<open>handler\<close>, from the
  counter and the display byte to the new counter and the new display byte.
\<close>

definition LoPriISR_CCP6 :: "(char8 \<Rightarrow> char8 \<Rightarrow> char8 \<times> char8) \<Rightarrow> state \<Rightarrow> state" where
  "LoPriISR_CCP6 handler s =
    (let (b, d) = handler (blink_count s) (display_value s);
         s1 = s\<lparr>blink_count := b, display_value := d\<rparr>
     in s1\<lparr>calls := calls s1 @ [Load_byte (display_value s1)], CCP6IF := False\<rparr>)"

text \<open>
  The control branch. Its locals \<^verbatim>\<open>DCRight\<close>, \<^verbatim>\<open>DCLeft\<close> and \<^verbatim>\<open>status\<close> start
  unassigned. Reading an unassigned local has no defined result: the branch then
  returns \<open>None\<close>.
\<close>

definition LoPriISR_CCP3 :: "state \<Rightarrow> state option" where
  "LoPriISR_CCP3 s =
    (case convert_array_to_inputs None None (IR_meas_array s) of
       (DCRight, DCLeft, None) \<Rightarrow> None
     | (DCRight, DCLeft, Some status) \<Rightarrow>
         if status = 0
         then (case (DCRight, DCLeft) of
                 (Some r, Some l) \<Rightarrow>
                   Some (s\<lparr>calls := calls s @ [Motors_drive r l],
                           count_lost := 0, count_stop := 0, CCP3IF := False\<rparr>)
               | _ \<Rightarrow> None)
         else if status = 1 then Some (s\<lparr>count_lost := count_lost s + 1, CCP3IF := False\<rparr>)
         else if status = 2 then Some (s\<lparr>count_stop := count_stop s + 1, CCP3IF := False\<rparr>)
         else Some (s\<lparr>CCP3IF := False\<rparr>))"

text \<open>
  The two dispatch loops. Each pass serves the first pending source of the chain and
  starts over; the loop ends when nothing is pending. The values read from the hardware
  during one invocation are arguments: the pin RB0 for the button and debounce branches,
  the ADC result, and PORTB for the encoder branch. Every branch clears the flag that
  started it, which is why the loops end when the hardware raises no new flag meanwhile.
\<close>

function HiPriISR :: "bool \<Rightarrow> state \<Rightarrow> state" where
  "HiPriISR RB0 s =
    (if SSP1IF s then HiPriISR RB0 (HiPriISR_SSP1IF s)
     else if INT0IF s then HiPriISR RB0 (HiPriISR_INT0 RB0 s)
     else s)"
  by pat_completeness auto
termination
  by (relation "measure (\<lambda>(RB0, s). (if SSP1IF s then 1 else 0) + (if INT0IF s then 1 else 0))")
     (auto simp add: HiPriISR_SSP1IF_def HiPriISR_INT0_def)

function LoPriISR ::
  "(char8 \<Rightarrow> char8) \<Rightarrow> (char8 \<Rightarrow> char8 \<Rightarrow> char8 \<times> char8) \<Rightarrow> short16 \<Rightarrow> char8 \<Rightarrow> bool
     \<Rightarrow> state \<Rightarrow> state option" where
  "LoPriISR gh bh result PORTB RB0 s =
    (if ADIF s then LoPriISR gh bh result PORTB RB0 (LoPriISR_ADIF result s)
     else if RBIF s then LoPriISR gh bh result PORTB RB0 (LoPriISR_RBIF PORTB s)
     else if CCP7IF s \<and> CCP7IE s then LoPriISR gh bh result PORTB RB0 (LoPriISR_CCP7 gh RB0 s)
     else if CCP6IF s then LoPriISR gh bh result PORTB RB0 (LoPriISR_CCP6 bh s)
     else if CCP3IF s
     then (case LoPriISR_CCP3 s of
             None \<Rightarrow> None
           | Some s1 \<Rightarrow> LoPriISR gh bh result PORTB RB0 s1)
     else Some s)"
  by pat_completeness auto
termination
  by (relation "measure (\<lambda>(gh, bh, result, PORTB, RB0, s).
        (if ADIF s then 1 else 0) + (if RBIF s then 1 else 0)
        + (if CCP7IF s \<and> CCP7IE s then 1 else 0)
        + (if CCP6IF s then 1 else 0) + (if CCP3IF s then 1 else 0))")
     (auto simp add: LoPriISR_ADIF_def LoPriISR_RBIF_def update_encoders_def LoPriISR_CCP7_def
        LoPriISR_CCP6_def LoPriISR_CCP3_def Let_def
        split: prod.splits option.splits if_splits)

text \<open>A run of consecutive control periods; it stops at the first undefined one.\<close>

fun control_periods :: "nat \<Rightarrow> state \<Rightarrow> state option" where
  "control_periods 0 s = Some s"
| "control_periods (Suc n) s =
    (case LoPriISR_CCP3 s of None \<Rightarrow> None | Some s1 \<Rightarrow> control_periods n s1)"

text \<open>
  A sample arrives: the ADC branch of \<^verbatim>\<open>LoPriISR\<close> stores it, and the main loop makes
  one iteration. \<open>samples\<close> feeds a list of raw readings this way.
\<close>

definition sample_arrived :: "state \<Rightarrow> short16 \<Rightarrow> state" where
  "sample_arrived s result = main_loop_body (LoPriISR_ADIF result s)"

definition samples :: "short16 list \<Rightarrow> state \<Rightarrow> state" where
  "samples rs s = foldl sample_arrived s rs"

section \<open>Initial and reachable states\<close>

text \<open>
  The globals with the initial values main.c gives them and the sensor structs as
  \<^verbatim>\<open>init\<close> leaves them. The encoders, set by \<^verbatim>\<open>init_encoder\<close>, and the interrupt bits,
  set by initialisation code outside main.c, are not constrained.
\<close>

definition initial :: "state \<Rightarrow> bool" where
  "initial s \<longleftrightarrow>
     go_flag s = 0 \<and> go_flag_0 s = 0 \<and> button_state s = 0 \<and> button_state_0 s = 0
     \<and> count_lost s = 0 \<and> count_stop s = 0 \<and> adc_flag s = 0 \<and> adc_reading s = 0
     \<and> IR_meas_array s = 0 \<and> IR_temp_array s = 0 \<and> IR s = IR_structs
     \<and> sensor_read s = IR_1 \<and> sensor_next s = IR_1
     \<and> display_value s = 0 \<and> blink_count s = 0 \<and> adc_reading_number s = 0"

text \<open>
  Modelled from the spec: \<^verbatim>\<open>init_encoder\<close> of encoders.h, not part of the sources,
  fills an encoder struct from its two pins; history and tick count start at 0.
\<close>

definition init_encoder :: "nat \<Rightarrow> nat \<Rightarrow> Encoder" where
  "init_encoder a b = \<lparr>pin_a = a, pin_b = b, reading = 0, count = 0\<rparr>"

text \<open>One initial state, with the edge interrupt of the button and the ADC interrupt on.\<close>

definition state0 :: state where
  "state0 = \<lparr>go_flag = 0, go_flag_0 = 0, button_state = 0, button_state_0 = 0,
     count_lost = 0, count_stop = 0, adc_flag = 0, adc_reading = 0,
     IR_meas_array = 0, IR_temp_array = 0, IR = IR_structs,
     sensor_read = IR_1, sensor_next = IR_1,
     encoder_A = init_encoder 5 4, encoder_B = init_encoder 7 6,
     display_value = 0, blink_count = 0, adc_reading_number = 0,
     INT0IE = True, INT0IF = False, CCP7IE = False, CCP7IF = False,
     ADIE = True, ADIF = False, RBIF = False, CCP6IF = False, CCP3IF = False,
     SSP1IF = False, calls = []\<rparr>"

text \<open>
  The states the program can be in: from an initial state, any block of the main loop
  and any branch of the two handlers may run next, with any value read from the
  hardware and any result of the two absent handlers, and the hardware may raise any
  interrupt flag. The handlers run whole between two blocks of the main loop. Every
  order of events of the real program is among these runs.
\<close>

inductive reachable :: "state \<Rightarrow> bool" where
  r_initial: "initial s \<Longrightarrow> reachable s"
| r_go_edge: "reachable s \<Longrightarrow> reachable (main_go_edge s)"
| r_publish: "reachable s \<Longrightarrow> reachable (main_publish s)"
| r_adc: "reachable s \<Longrightarrow> reachable (main_adc s)"
| r_lost: "reachable s \<Longrightarrow> reachable (main_lost s)"
| r_stop: "reachable s \<Longrightarrow> reachable (main_stop s)"
| r_SSP1IF: "reachable s \<Longrightarrow> reachable (HiPriISR_SSP1IF s)"
| r_INT0: "reachable s \<Longrightarrow> reachable (HiPriISR_INT0 RB0 s)"
| r_ADIF: "reachable s \<Longrightarrow> reachable (LoPriISR_ADIF result s)"
| r_RBIF: "reachable s \<Longrightarrow> reachable (LoPriISR_RBIF PORTB s)"
| r_CCP7: "reachable s \<Longrightarrow> reachable (LoPriISR_CCP7 gh RB0 s)"
| r_CCP6: "reachable s \<Longrightarrow> reachable (LoPriISR_CCP6 bh s)"
| r_CCP3: "reachable s \<Longrightarrow> LoPriISR_CCP3 s = Some s1 \<Longrightarrow> reachable s1"
| r_flags: "reachable s \<Longrightarrow>
    reachable (s\<lparr>INT0IF := f1, CCP7IF := f2, ADIF := f3, RBIF := f4, CCP6IF := f5,
      CCP3IF := f6, SSP1IF := f7\<rparr>)"

section \<open>Theorems\<close>

subsection \<open>The alert loop and the recovery blocks\<close>

declare blink_loop.simps [simp del]

lemma blink_loop_calls:
  "blink_loop i n ms s =
     s\<lparr>calls := calls s @ concat (replicate (n - i)
          [Load_byte 0xFF, Delay_ms ms, Load_byte 0x00, Delay_ms ms])\<rparr>"
proof (induction i n ms s rule: blink_loop.induct)
  case (1 i n ms s)
  show ?case
  proof (cases "i < n")
    case True
    then have "n - i = Suc (n - (i + 1))" by simp
    with True 1 show ?thesis
      by (subst blink_loop.simps) simp
  next
    case False
    then show ?thesis by (subst blink_loop.simps) simp
  qed
qed





subsection \<open>The control period\<close>

lemma status_lost_iff:
  "snd (snd (convert_array_to_inputs dR dL m)) = Some 1 \<longleftrightarrow> m = 0 \<or> m = 5"
  by (simp add: convert_array_to_inputs_def)

lemma status_stop_iff:
  "snd (snd (convert_array_to_inputs dR dL m)) = Some 2 \<longleftrightarrow> m = 7"
  by (simp add: convert_array_to_inputs_def)

lemma CCP3_lost:
  assumes "IR_meas_array s = 0 \<or> IR_meas_array s = 5"
  shows "LoPriISR_CCP3 s = Some (s\<lparr>count_lost := count_lost s + 1, CCP3IF := False\<rparr>)"
proof -
  from assms have "convert_array_to_inputs None None (IR_meas_array s) = (None, None, Some 1)"
    by (auto simp add: convert_array_to_inputs_def)
  then show ?thesis by (simp add: LoPriISR_CCP3_def)
qed

lemma CCP3_stop:
  assumes "IR_meas_array s = 7"
  shows "LoPriISR_CCP3 s = Some (s\<lparr>count_stop := count_stop s + 1, CCP3IF := False\<rparr>)"
proof -
  from assms have "convert_array_to_inputs None None (IR_meas_array s) = (None, None, Some 2)"
    by (simp add: convert_array_to_inputs_def)
  then show ?thesis by (simp add: LoPriISR_CCP3_def)
qed

lemma CCP3_status_0:
  assumes "convert_array_to_inputs None None (IR_meas_array s) = (dR, dL, Some 0)"
  shows "\<exists>r l. dR = Some r \<and> dL = Some l \<and>
     LoPriISR_CCP3 s = Some (s\<lparr>calls := calls s @ [Motors_drive r l],
       count_lost := 0, count_stop := 0, CCP3IF := False\<rparr>)"
proof -
  from assms obtain r l where "dR = Some r" "dL = Some l"
    by (auto simp add: convert_array_to_inputs_def split: if_splits)
  with assms show ?thesis by (simp add: LoPriISR_CCP3_def)
qed

lemma CCP3_status_1:
  assumes "convert_array_to_inputs None None (IR_meas_array s) = (dR, dL, Some 1)"
  shows "LoPriISR_CCP3 s = Some (s\<lparr>count_lost := count_lost s + 1, CCP3IF := False\<rparr>)"
  using assms by (simp add: LoPriISR_CCP3_def)

lemma CCP3_status_2:
  assumes "convert_array_to_inputs None None (IR_meas_array s) = (dR, dL, Some 2)"
  shows "LoPriISR_CCP3 s = Some (s\<lparr>count_stop := count_stop s + 1, CCP3IF := False\<rparr>)"
  using assms by (simp add: LoPriISR_CCP3_def)

lemma lost_periods:
  "IR_meas_array s = 0 \<or> IR_meas_array s = 5 \<Longrightarrow>
   control_periods (Suc n) s
     = Some (s\<lparr>count_lost := count_lost s + of_nat (Suc n), CCP3IF := False\<rparr>)"
proof (induction n arbitrary: s)
  case 0
  then show ?case by (simp add: CCP3_lost)
next
  case (Suc n)
  let ?s1 = "s\<lparr>count_lost := count_lost s + 1, CCP3IF := False\<rparr>"
  have "IR_meas_array ?s1 = 0 \<or> IR_meas_array ?s1 = 5" using Suc.prems by simp
  then have "control_periods (Suc n) ?s1
     = Some (?s1\<lparr>count_lost := count_lost ?s1 + of_nat (Suc n), CCP3IF := False\<rparr>)"
    by (rule Suc.IH)
  moreover have "control_periods (Suc (Suc n)) s = control_periods (Suc n) ?s1"
    using Suc.prems by (simp add: CCP3_lost)
  ultimately show ?case by (simp add: add.assoc)
qed

lemma stop_periods:
  "IR_meas_array s = 7 \<Longrightarrow>
   control_periods (Suc n) s
     = Some (s\<lparr>count_stop := count_stop s + of_nat (Suc n), CCP3IF := False\<rparr>)"
proof (induction n arbitrary: s)
  case 0
  then show ?case by (simp add: CCP3_stop)
next
  case (Suc n)
  let ?s1 = "s\<lparr>count_stop := count_stop s + 1, CCP3IF := False\<rparr>"
  have "IR_meas_array ?s1 = 7" using Suc.prems by simp
  then have "control_periods (Suc n) ?s1
     = Some (?s1\<lparr>count_stop := count_stop ?s1 + of_nat (Suc n), CCP3IF := False\<rparr>)"
    by (rule Suc.IH)
  moreover have "control_periods (Suc (Suc n)) s = control_periods (Suc n) ?s1"
    using Suc.prems by (simp add: CCP3_stop)
  ultimately show ?case by (simp add: add.assoc)
qed

lemma unat_counter_add:
  "unat (c :: 8 word) + n \<le> 255 \<Longrightarrow> unat (c + of_nat n) = unat c + n"
proof -
  assume b: "unat c + n \<le> 255"
  then have "unat (of_nat n :: 8 word) = n" by (simp add: unat_of_nat)
  with b show ?thesis by (simp add: unat_add_lem [THEN iffD1])
qed

lemma lost_run:
  assumes "IR_meas_array s = 0 \<or> IR_meas_array s = 5" and "unat (count_lost s) + n \<le> 255"
  shows "\<exists>s1. control_periods n s = Some s1
     \<and> unat (count_lost s1) = unat (count_lost s) + n \<and> count_stop s1 = count_stop s"
proof (cases n)
  case 0
  then show ?thesis by simp
next
  case (Suc m)
  with assms show ?thesis
    by (simp add: lost_periods unat_counter_add del: control_periods.simps of_nat_Suc)
qed

lemma stop_run:
  assumes "IR_meas_array s = 7" and "unat (count_stop s) + n \<le> 255"
  shows "\<exists>s1. control_periods n s = Some s1
     \<and> unat (count_stop s1) = unat (count_stop s) + n \<and> count_lost s1 = count_lost s"
proof (cases n)
  case 0
  then show ?thesis by simp
next
  case (Suc m)
  with assms show ?thesis
    by (simp add: stop_periods unat_counter_add del: control_periods.simps of_nat_Suc)
qed

subsection \<open>Fields of the initial state\<close>

lemma state0_fields:
  "go_flag state0 = 0" "go_flag_0 state0 = 0" "count_lost state0 = 0" "count_stop state0 = 0"
  "IR_meas_array state0 = 0" "IR_temp_array state0 = 0" "IR state0 = IR_structs"
  "sensor_read state0 = IR_1" "sensor_next state0 = IR_1" "adc_reading_number state0 = 0"
  "reading (encoder_A state0) = 0" "count (encoder_A state0) = 0"
  by (simp_all add: state0_def init_encoder_def)

lemma initial_state0: "initial state0"
  by (simp add: initial_def state0_def)



subsection \<open>Bytes that hold a 3-bit pattern\<close>

lemma le7_mask: "(x::8 word) \<le> 7 \<longleftrightarrow> x AND mask 3 = x"
proof -
  have "x \<le> 7 \<longleftrightarrow> uint x < 2 ^ 3"
    by (auto simp add: word_le_def)
  then show ?thesis
    by (simp add: mask_eq_iff)
qed

lemma le7_bits: "(x::8 word) \<le> 7 \<longleftrightarrow> (\<forall>n. bit x n \<longrightarrow> n < 3)"
proof
  assume "x \<le> 7"
  then have eq: "x AND mask 3 = x" by (simp add: le7_mask)
  show "\<forall>n. bit x n \<longrightarrow> n < 3"
  proof (intro allI impI)
    fix n
    assume "bit x n"
    then have "bit (x AND mask 3) n" by (simp add: eq)
    then show "n < 3" by (simp add: bit_simps)
  qed
next
  assume high: "\<forall>n. bit x n \<longrightarrow> n < 3"
  have "x AND mask 3 = x"
    by (rule bit_eqI) (auto simp add: bit_simps high)
  then show "x \<le> 7" by (simp add: le7_mask)
qed

lemma set_bit_le7: "(x::8 word) \<le> 7 \<Longrightarrow> i < 3 \<Longrightarrow> x OR 2 ^ i \<le> 7"
  by (auto simp add: le7_bits bit_simps)

lemma clear_bit_le7: "(x::8 word) \<le> 7 \<Longrightarrow> x AND NOT (2 ^ i) \<le> 7"
  by (auto simp add: le7_bits bit_simps)

lemma le7_cases: "(x::8 word) \<le> 7 \<Longrightarrow> x \<in> {0, 1, 2, 3, 4, 5, 6, 7}"
proof -
  assume "x \<le> 7"
  then have "unat x \<le> 7" by (simp add: word_le_nat_alt)
  then have "unat x \<in> {0, 1, 2, 3, 4, 5, 6, 7}" by auto
  then have "of_nat (unat x) \<in> (of_nat ` {0, 1, 2, 3, 4, 5, 6, 7} :: 8 word set)"
    by (rule imageI)
  then show ?thesis by simp
qed

lemma status_assigned:
  "m \<le> 7 \<Longrightarrow> snd (snd (convert_array_to_inputs dR dL m)) \<in> {Some 0, Some 1, Some 2}"
  by (drule le7_cases) (auto simp add: convert_array_to_inputs_def)

lemma CCP3_defined:
  assumes "IR_meas_array s \<le> 7"
  shows "LoPriISR_CCP3 s \<noteq> None"
proof -
  from assms have "IR_meas_array s \<in> {0, 1, 2, 3, 4, 5, 6, 7}" by (rule le7_cases)
  then consider "IR_meas_array s = 0 \<or> IR_meas_array s = 5" | "IR_meas_array s = 7"
    | "IR_meas_array s \<in> {1, 2, 3, 4, 6}" by auto
  then show ?thesis
  proof cases
    case 1
    then show ?thesis by (simp add: CCP3_lost)
  next
    case 2
    then show ?thesis by (simp add: CCP3_stop)
  next
    case 3
    then obtain r l where
      "convert_array_to_inputs None None (IR_meas_array s) = (Some r, Some l, Some 0)"
      by (auto simp add: convert_array_to_inputs_def)
    then show ?thesis by (simp add: LoPriISR_CCP3_def)
  qed
qed

subsection \<open>What the blocks of the main loop leave alone\<close>

lemma main_go_edge_sampler:
  "IR_temp_array (main_go_edge s) = IR_temp_array s"
  "IR_meas_array (main_go_edge s) = IR_meas_array s"
  "sensor_read (main_go_edge s) = sensor_read s"
  "sensor_next (main_go_edge s) = sensor_next s"
  "adc_reading_number (main_go_edge s) = adc_reading_number s"
  "adc_flag (main_go_edge s) = adc_flag s"
  "adc_reading (main_go_edge s) = adc_reading s"
  "IR (main_go_edge s) = IR s"
  by (simp_all add: main_go_edge_def Let_def)

lemma main_lost_sampler:
  "IR_temp_array (main_lost s) = IR_temp_array s"
  "IR_meas_array (main_lost s) = IR_meas_array s"
  "sensor_read (main_lost s) = sensor_read s"
  "sensor_next (main_lost s) = sensor_next s"
  "adc_reading_number (main_lost s) = adc_reading_number s"
  "IR (main_lost s) = IR s"
  by (simp_all add: main_lost_def blink_loop_calls)

lemma main_stop_sampler:
  "IR_temp_array (main_stop s) = IR_temp_array s"
  "IR_meas_array (main_stop s) = IR_meas_array s"
  "sensor_read (main_stop s) = sensor_read s"
  "sensor_next (main_stop s) = sensor_next s"
  "adc_reading_number (main_stop s) = adc_reading_number s"
  "IR (main_stop s) = IR s"
  by (simp_all add: main_stop_def blink_loop_calls)

lemma main_publish_sampler:
  "IR_temp_array (main_publish s) = IR_temp_array s"
  "sensor_read (main_publish s) = sensor_read s"
  "sensor_next (main_publish s) = sensor_next s"
  "adc_reading_number (main_publish s) = adc_reading_number s"
  "adc_flag (main_publish s) = adc_flag s"
  "adc_reading (main_publish s) = adc_reading s"
  "IR (main_publish s) = IR s"
  "IR_meas_array (main_publish s) =
     (if sensor_read s = IR_1 \<and> adc_reading_number s = 0 then IR_temp_array s
      else IR_meas_array s)"
  by (simp_all add: main_publish_def)

lemma main_adc_meas: "IR_meas_array (main_adc s) = IR_meas_array s"
  by (simp add: main_adc_def Let_def process_measurement_def update_sensor_def
      split: prod.splits)

lemma main_loop_body_publish:
  "IR_meas_array (main_loop_body s) =
     (if sensor_read s = IR_1 \<and> adc_reading_number s = 0 then IR_temp_array s
      else IR_meas_array s)"
  by (simp add: main_loop_body_def main_stop_sampler main_lost_sampler main_publish_sampler
      main_go_edge_sampler main_adc_meas)

subsection \<open>One sample, and the three samples a sensor gets\<close>

lemma binarize: "convert_measurement_to_binary r ADC_CUTOFF \<noteq> 0 \<longleftrightarrow> 3500 \<le> sint r"
  by (simp add: convert_measurement_to_binary_def ADC_CUTOFF_def)

lemma sample_first:
  assumes "adc_reading_number s = 0"
  shows "adc_reading_number (sample_arrived s r) = 1"
    "sensor_read (sample_arrived s r) = sensor_read s"
    "sensor_next (sample_arrived s r) = sensor_next s"
    "IR_temp_array (sample_arrived s r) = IR_temp_array s"
    "IR (sample_arrived s r) = IR s"
    "IR_meas_array (sample_arrived s r) =
       (if sensor_read s = IR_1 then IR_temp_array s else IR_meas_array s)"
  using assms
  by (simp_all add: sample_arrived_def main_loop_body_def main_stop_sampler main_lost_sampler
      main_adc_def main_publish_sampler main_go_edge_sampler LoPriISR_ADIF_def Let_def)

lemma sample_second:
  assumes "adc_reading_number s = 1" "sensor_next s = sensor_read s"
  shows "adc_reading_number (sample_arrived s r) = 2"
    "sensor_read (sample_arrived s r) = sensor_read s"
    "sensor_next (sample_arrived s r) = next_sensor (IR s (sensor_read s))"
    "IR_temp_array (sample_arrived s r) =
       (if 3500 \<le> sint r then IR_temp_array s OR push_bit (index (IR s (sensor_read s))) 1
        else IR_temp_array s AND NOT (push_bit (index (IR s (sensor_read s))) 1))"
    "IR (sample_arrived s r) = IR s"
    "IR_meas_array (sample_arrived s r) = IR_meas_array s"
  using assms
  by (simp_all add: sample_arrived_def main_loop_body_def main_stop_sampler main_lost_sampler
      main_adc_def main_publish_sampler main_go_edge_sampler LoPriISR_ADIF_def Let_def
      process_measurement_def update_sensor_def READINGS_MAX_def binarize split: prod.splits)

lemma sample_third:
  assumes "adc_reading_number s = 2" "sensor_next s \<noteq> sensor_read s"
  shows "adc_reading_number (sample_arrived s r) = 0"
    "sensor_read (sample_arrived s r) = sensor_next s"
    "sensor_next (sample_arrived s r) = sensor_next s"
    "IR_temp_array (sample_arrived s r) =
       (if 3500 \<le> sint r then IR_temp_array s OR push_bit (index (IR s (sensor_read s))) 1
        else IR_temp_array s AND NOT (push_bit (index (IR s (sensor_read s))) 1))"
    "IR (sample_arrived s r) = IR s"
    "IR_meas_array (sample_arrived s r) = IR_meas_array s"
  using assms
  by (simp_all add: sample_arrived_def main_loop_body_def main_stop_sampler main_lost_sampler
      main_adc_def main_publish_sampler main_go_edge_sampler LoPriISR_ADIF_def Let_def
      process_measurement_def update_sensor_def READINGS_MAX_def binarize split: prod.splits)

lemma samples_3:
  "samples [r1, r2, r3] s = sample_arrived (sample_arrived (sample_arrived s r1) r2) r3"
  by (simp add: samples_def)

lemma bit_written:
  "bit (if c then (t :: 8 word) OR push_bit i 1 else t AND NOT (push_bit i 1)) k
     \<longleftrightarrow> (if k = i then c \<and> i < 8 else bit t k)"
  by (auto simp add: bit_simps dest: bit_imp_le_length)

lemma sensor_triple_mid:
  assumes "adc_reading_number s = 0" "sensor_next s = sensor_read s"
  shows "adc_reading_number (samples [r1] s) = 1"
    "adc_reading_number (samples [r1, r2] s) = 2"
    "sensor_read (samples [r1] s) = sensor_read s"
    "sensor_read (samples [r1, r2] s) = sensor_read s"
    "sensor_next (samples [r1] s) = sensor_read s"
    "sensor_next (samples [r1, r2] s) = next_sensor (IR s (sensor_read s))"
    "IR_meas_array (samples [r1] s) =
       (if sensor_read s = IR_1 then IR_temp_array s else IR_meas_array s)"
    "IR_meas_array (samples [r1, r2] s) =
       (if sensor_read s = IR_1 then IR_temp_array s else IR_meas_array s)"
  using assms by (simp_all add: samples_def sample_first sample_second)

lemma sensor_triple:
  assumes "adc_reading_number s = 0" "sensor_next s = sensor_read s"
    and "next_sensor (IR s (sensor_read s)) \<noteq> sensor_read s"
  shows "adc_reading_number (samples [r1, r2, r3] s) = 0"
    "sensor_read (samples [r1, r2, r3] s) = next_sensor (IR s (sensor_read s))"
    "sensor_next (samples [r1, r2, r3] s) = next_sensor (IR s (sensor_read s))"
    "IR (samples [r1, r2, r3] s) = IR s"
    "IR_meas_array (samples [r1, r2, r3] s) =
       (if sensor_read s = IR_1 then IR_temp_array s else IR_meas_array s)"
    "bit (IR_temp_array (samples [r1, r2, r3] s)) k \<longleftrightarrow>
       (if k = index (IR s (sensor_read s)) then 3500 \<le> sint r3 \<and> k < 8
        else bit (IR_temp_array s) k)"
proof -
  let ?s1 = "sample_arrived s r1"
  let ?s2 = "sample_arrived ?s1 r2"
  have s1: "adc_reading_number ?s1 = 1" "sensor_next ?s1 = sensor_read ?s1"
    "sensor_read ?s1 = sensor_read s" "IR ?s1 = IR s" "IR_temp_array ?s1 = IR_temp_array s"
    using assms by (simp_all add: sample_first)
  have s2: "adc_reading_number ?s2 = 2" "sensor_next ?s2 \<noteq> sensor_read ?s2"
    "sensor_read ?s2 = sensor_read s" "IR ?s2 = IR s"
    "sensor_next ?s2 = next_sensor (IR s (sensor_read s))"
    using assms s1 by (simp_all add: sample_second)
  show "adc_reading_number (samples [r1, r2, r3] s) = 0"
    "sensor_read (samples [r1, r2, r3] s) = next_sensor (IR s (sensor_read s))"
    "sensor_next (samples [r1, r2, r3] s) = next_sensor (IR s (sensor_read s))"
    "IR (samples [r1, r2, r3] s) = IR s"
    using s2 by (simp_all add: samples_3 sample_third)
  show "IR_meas_array (samples [r1, r2, r3] s) =
       (if sensor_read s = IR_1 then IR_temp_array s else IR_meas_array s)"
    using s1 s2 assms(1) by (simp add: samples_3 sample_third sample_second sample_first)
  have "IR_temp_array (samples [r1, r2, r3] s) =
      (if 3500 \<le> sint r3
       then IR_temp_array ?s2 OR push_bit (index (IR s (sensor_read s))) 1
       else IR_temp_array ?s2 AND NOT (push_bit (index (IR s (sensor_read s))) 1))"
    using s2 by (simp add: samples_3 sample_third)
  moreover have "IR_temp_array ?s2 =
      (if 3500 \<le> sint r2
       then IR_temp_array s OR push_bit (index (IR s (sensor_read s))) 1
       else IR_temp_array s AND NOT (push_bit (index (IR s (sensor_read s))) 1))"
    using s1 by (simp add: sample_second)
  ultimately show "bit (IR_temp_array (samples [r1, r2, r3] s)) k \<longleftrightarrow>
       (if k = index (IR s (sensor_read s)) then 3500 \<le> sint r3 \<and> k < 8
        else bit (IR_temp_array s) k)"
    by (simp only: bit_written) simp
qed

text \<open>
  A whole round from the first sensor: nine samples, three for each sensor in ring order.
\<close>

lemma sensor_round:
  assumes start: "sensor_read s = IR_1" "sensor_next s = IR_1" "adc_reading_number s = 0"
    and ring: "next_sensor (IR s IR_1) = a" "next_sensor (IR s a) = b"
      "next_sensor (IR s b) = IR_1" "a \<noteq> IR_1" "b \<noteq> IR_1"
  shows "sensor_read (samples [r1, r2, r3, r4, r5, r6, r7, r8, r9] s) = IR_1"
    "sensor_next (samples [r1, r2, r3, r4, r5, r6, r7, r8, r9] s) = IR_1"
    "adc_reading_number (samples [r1, r2, r3, r4, r5, r6, r7, r8, r9] s) = 0"
    "sensor_read (samples [r1, r2, r3] s) = a"
    "sensor_read (samples [r1, r2, r3, r4, r5, r6] s) = b"
    "sensor_next (samples [r1, r2, r3, r4, r5, r6] s) = b"
    "\<And>k. bit (IR_meas_array (main_loop_body (samples [r1, r2, r3, r4, r5, r6, r7, r8, r9] s))) k
       \<longleftrightarrow> (if k = index (IR s b) then 3500 \<le> sint r9 \<and> k < 8
           else if k = index (IR s a) then 3500 \<le> sint r6 \<and> k < 8
           else if k = index (IR s IR_1) then 3500 \<le> sint r3 \<and> k < 8
           else bit (IR_temp_array s) k)"
    "\<And>k. 1 \<le> k \<and> k \<le> 9 \<Longrightarrow>
       IR_meas_array (samples (take k [r1, r2, r3, r4, r5, r6, r7, r8, r9]) s) = IR_temp_array s"
proof -
  define s3 where "s3 = samples [r1, r2, r3] s"
  define s6 where "s6 = samples [r4, r5, r6] s3"
  define s9 where "s9 = samples [r7, r8, r9] s6"
  have ab: "a \<noteq> b" using ring by auto
  have t1: "adc_reading_number s3 = 0" "sensor_read s3 = a" "sensor_next s3 = a" "IR s3 = IR s"
    "IR_meas_array s3 = IR_temp_array s"
    "\<And>k. bit (IR_temp_array s3) k \<longleftrightarrow>
       (if k = index (IR s IR_1) then 3500 \<le> sint r3 \<and> k < 8 else bit (IR_temp_array s) k)"
    unfolding s3_def using start ring by (simp_all add: sensor_triple)
  have t2: "adc_reading_number s6 = 0" "sensor_read s6 = b" "sensor_next s6 = b" "IR s6 = IR s"
    "IR_meas_array s6 = IR_temp_array s"
    "\<And>k. bit (IR_temp_array s6) k \<longleftrightarrow>
       (if k = index (IR s a) then 3500 \<le> sint r6 \<and> k < 8 else bit (IR_temp_array s3) k)"
    unfolding s6_def using t1(1-5) ring ab by (simp_all add: sensor_triple)
  have t3: "adc_reading_number s9 = 0" "sensor_read s9 = IR_1" "sensor_next s9 = IR_1"
    "IR_meas_array s9 = IR_temp_array s"
    "\<And>k. bit (IR_temp_array s9) k \<longleftrightarrow>
       (if k = index (IR s b) then 3500 \<le> sint r9 \<and> k < 8 else bit (IR_temp_array s6) k)"
    unfolding s9_def using t2(1-5) ring by (simp_all add: sensor_triple)
  have s9: "samples [r1, r2, r3, r4, r5, r6, r7, r8, r9] s = s9"
    by (simp add: s9_def s6_def s3_def samples_def)
  have s6: "samples [r1, r2, r3, r4, r5, r6] s = s6"
    by (simp add: s6_def s3_def samples_def)
  have pub: "IR_meas_array (main_loop_body s9) = IR_temp_array s9"
    using t3 by (simp add: main_loop_body_publish)
  show "sensor_read (samples [r1, r2, r3, r4, r5, r6, r7, r8, r9] s) = IR_1"
    "sensor_next (samples [r1, r2, r3, r4, r5, r6, r7, r8, r9] s) = IR_1"
    "adc_reading_number (samples [r1, r2, r3, r4, r5, r6, r7, r8, r9] s) = 0"
    unfolding s9 using t3 by simp_all
  show "sensor_read (samples [r1, r2, r3] s) = a"
    using t1 by (simp add: s3_def)
  show "sensor_read (samples [r1, r2, r3, r4, r5, r6] s) = b"
    "sensor_next (samples [r1, r2, r3, r4, r5, r6] s) = b"
    unfolding s6 using t2 by simp_all
  show "bit (IR_meas_array (main_loop_body (samples [r1, r2, r3, r4, r5, r6, r7, r8, r9] s))) k
       \<longleftrightarrow> (if k = index (IR s b) then 3500 \<le> sint r9 \<and> k < 8
           else if k = index (IR s a) then 3500 \<le> sint r6 \<and> k < 8
           else if k = index (IR s IR_1) then 3500 \<le> sint r3 \<and> k < 8
           else bit (IR_temp_array s) k)" for k
    unfolding s9 pub using t3(5) t2(6) t1(6) by simp
  show "IR_meas_array (samples (take k [r1, r2, r3, r4, r5, r6, r7, r8, r9]) s) = IR_temp_array s"
    if k: "1 \<le> k \<and> k \<le> 9" for k
  proof -
    have m1: "IR_meas_array (samples [r1] s) = IR_temp_array s"
      "IR_meas_array (samples [r1, r2] s) = IR_temp_array s"
      using start by (simp_all add: sensor_triple_mid)
    have m2: "IR_meas_array (samples [r4] s3) = IR_temp_array s"
      "IR_meas_array (samples [r4, r5] s3) = IR_temp_array s"
      using t1 ring by (simp_all add: sensor_triple_mid)
    have m3: "IR_meas_array (samples [r7] s6) = IR_temp_array s"
      "IR_meas_array (samples [r7, r8] s6) = IR_temp_array s"
      using t2 ring by (simp_all add: sensor_triple_mid)
    have e: "samples [r1, r2, r3, r4] s = samples [r4] s3"
      "samples [r1, r2, r3, r4, r5] s = samples [r4, r5] s3"
      "samples [r1, r2, r3, r4, r5, r6, r7] s = samples [r7] s6"
      "samples [r1, r2, r3, r4, r5, r6, r7, r8] s = samples [r7, r8] s6"
      by (simp_all add: s6_def s3_def samples_def)
    from k have "k \<in> {1, 2, 3, 4, 5, 6, 7, 8, 9}" by auto
    then show ?thesis
      using m1 m2 m3 e t1(5) t2(5) t3(4) s9 s6 s3_def
      by (elim insertE emptyE) (simp_all add: numeral_eq_Suc)
  qed
qed

text \<open>
  The accumulator after each of the three samples of a sensor: the first sample leaves
  it as it is, the second and the third each write the bit of the sensor.
\<close>

lemma sensor_triple_temp:
  assumes "adc_reading_number s = 0" "sensor_next s = sensor_read s"
    and "next_sensor (IR s (sensor_read s)) \<noteq> sensor_read s"
  shows "IR_temp_array (samples [r1] s) = IR_temp_array s"
    "IR_temp_array (samples [r1, r2] s) =
       (if 3500 \<le> sint r2 then IR_temp_array s OR push_bit (index (IR s (sensor_read s))) 1
        else IR_temp_array s AND NOT (push_bit (index (IR s (sensor_read s))) 1))"
    "IR_temp_array (samples [r1, r2, r3] s) =
       (if 3500 \<le> sint r3
        then IR_temp_array (samples [r1, r2] s) OR push_bit (index (IR s (sensor_read s))) 1
        else IR_temp_array (samples [r1, r2] s)
               AND NOT (push_bit (index (IR s (sensor_read s))) 1))"
proof -
  let ?s1 = "sample_arrived s r1"
  let ?s2 = "sample_arrived ?s1 r2"
  have s1: "adc_reading_number ?s1 = 1" "sensor_next ?s1 = sensor_read ?s1"
    "sensor_read ?s1 = sensor_read s" "IR ?s1 = IR s" "IR_temp_array ?s1 = IR_temp_array s"
    using assms by (simp_all add: sample_first)
  have s2: "adc_reading_number ?s2 = 2" "sensor_next ?s2 \<noteq> sensor_read ?s2"
    "sensor_read ?s2 = sensor_read s" "IR ?s2 = IR s"
    using assms s1 by (simp_all add: sample_second)
  have p1: "samples [r1] s = ?s1" and p2: "samples [r1, r2] s = ?s2"
    by (simp_all add: samples_def)
  show "IR_temp_array (samples [r1] s) = IR_temp_array s"
    unfolding p1 by (rule s1(5))
  show "IR_temp_array (samples [r1, r2] s) =
       (if 3500 \<le> sint r2 then IR_temp_array s OR push_bit (index (IR s (sensor_read s))) 1
        else IR_temp_array s AND NOT (push_bit (index (IR s (sensor_read s))) 1))"
    unfolding p2 using s1 by (simp add: sample_second)
  show "IR_temp_array (samples [r1, r2, r3] s) =
       (if 3500 \<le> sint r3
        then IR_temp_array (samples [r1, r2] s) OR push_bit (index (IR s (sensor_read s))) 1
        else IR_temp_array (samples [r1, r2] s)
               AND NOT (push_bit (index (IR s (sensor_read s))) 1))"
    unfolding p2 samples_3 using s2 by (simp add: sample_third)
qed

lemma sensor_round_temp:
  assumes start: "sensor_read s = IR_1" "sensor_next s = IR_1" "adc_reading_number s = 0"
    and ring: "next_sensor (IR s IR_1) = a" "next_sensor (IR s a) = b"
      "next_sensor (IR s b) = IR_1" "a \<noteq> IR_1" "b \<noteq> IR_1"
  shows "IR_temp_array (samples [r1] s) = IR_temp_array s"
    "IR_temp_array (samples [r1, r2] s) =
       (if 3500 \<le> sint r2 then IR_temp_array s OR push_bit (index (IR s IR_1)) 1
        else IR_temp_array s AND NOT (push_bit (index (IR s IR_1)) 1))"
    "IR_temp_array (samples [r1, r2, r3] s) =
       (if 3500 \<le> sint r3 then IR_temp_array (samples [r1, r2] s) OR push_bit (index (IR s IR_1)) 1
        else IR_temp_array (samples [r1, r2] s) AND NOT (push_bit (index (IR s IR_1)) 1))"
    "IR_temp_array (samples [r1, r2, r3, r4] s) = IR_temp_array (samples [r1, r2, r3] s)"
    "IR_temp_array (samples [r1, r2, r3, r4, r5] s) =
       (if 3500 \<le> sint r5 then IR_temp_array (samples [r1, r2, r3] s) OR push_bit (index (IR s a)) 1
        else IR_temp_array (samples [r1, r2, r3] s) AND NOT (push_bit (index (IR s a)) 1))"
    "IR_temp_array (samples [r1, r2, r3, r4, r5, r6] s) =
       (if 3500 \<le> sint r6 then IR_temp_array (samples [r1, r2, r3, r4, r5] s) OR push_bit (index (IR s a)) 1
        else IR_temp_array (samples [r1, r2, r3, r4, r5] s) AND NOT (push_bit (index (IR s a)) 1))"
    "IR_temp_array (samples [r1, r2, r3, r4, r5, r6, r7] s) = IR_temp_array (samples [r1, r2, r3, r4, r5, r6] s)"
    "IR_temp_array (samples [r1, r2, r3, r4, r5, r6, r7, r8] s) =
       (if 3500 \<le> sint r8 then IR_temp_array (samples [r1, r2, r3, r4, r5, r6] s) OR push_bit (index (IR s b)) 1
        else IR_temp_array (samples [r1, r2, r3, r4, r5, r6] s) AND NOT (push_bit (index (IR s b)) 1))"
    "IR_temp_array (samples [r1, r2, r3, r4, r5, r6, r7, r8, r9] s) =
       (if 3500 \<le> sint r9 then IR_temp_array (samples [r1, r2, r3, r4, r5, r6, r7, r8] s) OR push_bit (index (IR s b)) 1
        else IR_temp_array (samples [r1, r2, r3, r4, r5, r6, r7, r8] s) AND NOT (push_bit (index (IR s b)) 1))"
proof -
  define s3 where "s3 = samples [r1, r2, r3] s"
  define s6 where "s6 = samples [r4, r5, r6] s3"
  have ab: "a \<noteq> b" using ring by auto
  have t1: "adc_reading_number s3 = 0" "sensor_read s3 = a" "sensor_next s3 = a" "IR s3 = IR s"
    unfolding s3_def using start ring by (simp_all add: sensor_triple)
  have t2: "adc_reading_number s6 = 0" "sensor_read s6 = b" "sensor_next s6 = b" "IR s6 = IR s"
    unfolding s6_def using t1 ring ab by (simp_all add: sensor_triple)
  have e: "samples [r1, r2, r3, r4] s = samples [r4] s3"
    "samples [r1, r2, r3, r4, r5] s = samples [r4, r5] s3"
    "samples [r1, r2, r3, r4, r5, r6] s = samples [r4, r5, r6] s3"
    "samples [r1, r2, r3, r4, r5, r6, r7] s = samples [r7] s6"
    "samples [r1, r2, r3, r4, r5, r6, r7, r8] s = samples [r7, r8] s6"
    "samples [r1, r2, r3, r4, r5, r6, r7, r8, r9] s = samples [r7, r8, r9] s6"
    by (simp_all add: s6_def s3_def samples_def)
  have f1: "next_sensor (IR s (sensor_read s)) \<noteq> sensor_read s"
    using start ring by simp
  have f2: "next_sensor (IR s3 (sensor_read s3)) \<noteq> sensor_read s3"
    using t1 ring ab by simp
  have f3: "next_sensor (IR s6 (sensor_read s6)) \<noteq> sensor_read s6"
    using t2 ring by simp
  note a1 = sensor_triple_temp [of s, OF start(3) _ f1, unfolded start, OF refl]
  note a2 = sensor_triple_temp [of s3, OF t1(1) _ f2, unfolded t1, OF refl]
  note a3 = sensor_triple_temp [of s6, OF t2(1) _ f3, unfolded t2, OF refl]
  show "IR_temp_array (samples [r1] s) = IR_temp_array s"
    by (rule a1(1))
  show "IR_temp_array (samples [r1, r2] s) =
       (if 3500 \<le> sint r2 then IR_temp_array s OR push_bit (index (IR s IR_1)) 1
        else IR_temp_array s AND NOT (push_bit (index (IR s IR_1)) 1))"
    by (rule a1(2))
  show "IR_temp_array (samples [r1, r2, r3] s) =
       (if 3500 \<le> sint r3 then IR_temp_array (samples [r1, r2] s) OR push_bit (index (IR s IR_1)) 1
        else IR_temp_array (samples [r1, r2] s) AND NOT (push_bit (index (IR s IR_1)) 1))"
    by (rule a1(3))
  show "IR_temp_array (samples [r1, r2, r3, r4] s) = IR_temp_array (samples [r1, r2, r3] s)"
    unfolding e s3_def [symmetric] by (rule a2(1))
  show "IR_temp_array (samples [r1, r2, r3, r4, r5] s) =
       (if 3500 \<le> sint r5 then IR_temp_array (samples [r1, r2, r3] s) OR push_bit (index (IR s a)) 1
        else IR_temp_array (samples [r1, r2, r3] s) AND NOT (push_bit (index (IR s a)) 1))"
    unfolding e s3_def [symmetric] by (rule a2(2))
  show "IR_temp_array (samples [r1, r2, r3, r4, r5, r6] s) =
       (if 3500 \<le> sint r6 then IR_temp_array (samples [r1, r2, r3, r4, r5] s) OR push_bit (index (IR s a)) 1
        else IR_temp_array (samples [r1, r2, r3, r4, r5] s) AND NOT (push_bit (index (IR s a)) 1))"
    unfolding e by (rule a2(3))
  show "IR_temp_array (samples [r1, r2, r3, r4, r5, r6, r7] s) = IR_temp_array (samples [r1, r2, r3, r4, r5, r6] s)"
    unfolding e s6_def [symmetric] by (rule a3(1))
  show "IR_temp_array (samples [r1, r2, r3, r4, r5, r6, r7, r8] s) =
       (if 3500 \<le> sint r8 then IR_temp_array (samples [r1, r2, r3, r4, r5, r6] s) OR push_bit (index (IR s b)) 1
        else IR_temp_array (samples [r1, r2, r3, r4, r5, r6] s) AND NOT (push_bit (index (IR s b)) 1))"
    unfolding e s6_def [symmetric] by (rule a3(2))
  show "IR_temp_array (samples [r1, r2, r3, r4, r5, r6, r7, r8, r9] s) =
       (if 3500 \<le> sint r9 then IR_temp_array (samples [r1, r2, r3, r4, r5, r6, r7, r8] s) OR push_bit (index (IR s b)) 1
        else IR_temp_array (samples [r1, r2, r3, r4, r5, r6, r7, r8] s) AND NOT (push_bit (index (IR s b)) 1))"
    unfolding e by (rule a3(3))
qed

lemma ring_IR_structs:
  "next_sensor (IR_structs IR_1) = IR_2" "next_sensor (IR_structs IR_2) = IR_3"
  "next_sensor (IR_structs IR_3) = IR_1"
  "index (IR_structs IR_1) = 0" "index (IR_structs IR_2) = 1" "index (IR_structs IR_3) = 2"
  by simp_all

lemma index_IR_structs: "index (IR_structs x) < 3"
  by (cases x) simp_all

subsection \<open>The encoder history\<close>

lemma history_index:
  "(push_bit 2 (r :: 8 word) OR (t AND 3)) AND 0x0F = push_bit 2 (r AND 3) OR (t AND 3)"
proof -
  have a: "(0x0F :: 8 word) = mask 4" by (simp add: mask_eq_exp_minus_1)
  have b: "(3 :: 8 word) = mask 2" by (simp add: mask_eq_exp_minus_1)
  show ?thesis unfolding a b
    by (rule bit_eqI) (auto simp add: bit_simps)
qed

lemma history_low:
  "(push_bit 2 (r :: 8 word) OR (t AND 3)) AND 3 = t AND 3"
proof -
  have b: "(3 :: 8 word) = mask 2" by (simp add: mask_eq_exp_minus_1)
  show ?thesis unfolding b
    by (rule bit_eqI) (auto simp add: bit_simps)
qed

lemma update_encoders_count:
  "count (encoder_A (update_encoders PORTB s)) =
     count (encoder_A s) + lookup_table !
       unat (push_bit 2 (reading (encoder_A s) AND 3) OR (drop_bit 4 (PORTB AND 0xF0) AND 3))"
  by (simp add: update_encoders_def Let_def history_index)

lemma update_encoders_low:
  "reading (encoder_A (update_encoders PORTB s)) AND 3 = drop_bit 4 (PORTB AND 0xF0) AND 3"
  by (simp add: update_encoders_def Let_def history_low)

lemma update_encoders_B: "encoder_B (update_encoders PORTB s) = encoder_B s"
  by (simp add: update_encoders_def Let_def)

lemma update_encoders_run_B:
  "encoder_B (foldl (\<lambda>s p. update_encoders p s) s ps) = encoder_B s"
  by (induction ps arbitrary: s) (simp_all add: update_encoders_B)

lemma table_entries:
  assumes "old < 4" "new < 4"
  shows "((old = new \<or> old XOR new = 3) \<longrightarrow> lookup_table ! (4 * old + new) = 0)
   \<and> ((old XOR new = 1 \<or> old XOR new = 2) \<longrightarrow>
        (lookup_table ! (4 * old + new) = 1 \<or> lookup_table ! (4 * old + new) = - 1))
   \<and> lookup_table ! (4 * new + old) = - (lookup_table ! (4 * old + new))"
proof -
  from assms have "old \<in> {0, 1, 2, 3}" "new \<in> {0, 1, 2, 3}" by auto
  then show ?thesis
    by (auto simp add: lookup_table_def)
qed

lemma forward_cycle:
  assumes "reading (encoder_A s) AND 3 = 0"
  shows "count (encoder_A (foldl (\<lambda>s p. update_encoders p s) s [0x10, 0x30, 0x20, 0x00]))
         = count (encoder_A s) - 4"
  using assms
  by (simp add: update_encoders_count update_encoders_low lookup_table_def)

lemma backward_cycle:
  assumes "reading (encoder_A s) AND 3 = 0"
  shows "count (encoder_A (foldl (\<lambda>s p. update_encoders p s) s [0x20, 0x30, 0x10, 0x00]))
         = count (encoder_A s) + 4"
  using assms
  by (simp add: update_encoders_count update_encoders_low lookup_table_def)

subsection \<open>An invariant of the reachable states\<close>

lemma main_adc_le7:
  assumes "IR s = IR_structs" "IR_temp_array s \<le> 7" "IR_meas_array s \<le> 7"
  shows "IR (main_adc s) = IR_structs \<and> IR_temp_array (main_adc s) \<le> 7
    \<and> IR_meas_array (main_adc s) \<le> 7"
  using assms
  by (auto simp add: main_adc_def Let_def process_measurement_def update_sensor_def
      set_bit_le7 clear_bit_le7 index_IR_structs split: prod.splits if_splits)

lemma CCP3_le7:
  assumes "IR s = IR_structs \<and> IR_temp_array s \<le> 7 \<and> IR_meas_array s \<le> 7"
    and "LoPriISR_CCP3 s = Some s1"
  shows "IR s1 = IR_structs \<and> IR_temp_array s1 \<le> 7 \<and> IR_meas_array s1 \<le> 7"
  using assms
  by (auto simp add: LoPriISR_CCP3_def split: prod.splits option.splits if_splits)

lemma reachable_le7:
  "reachable s \<Longrightarrow> IR s = IR_structs \<and> IR_temp_array s \<le> 7 \<and> IR_meas_array s \<le> 7"
proof (induction rule: reachable.induct)
  case (r_initial s)
  then show ?case by (simp add: initial_def)
next
  case (r_adc s)
  then show ?case by (simp add: main_adc_le7)
next
  case (r_CCP3 s s1)
  then show ?case using CCP3_le7 by blast
next
  case (r_lost s)
  then show ?case by (simp add: main_lost_def blink_loop_calls)
next
  case (r_stop s)
  then show ?case by (simp add: main_stop_def blink_loop_calls)
next
  case (r_CCP6 s bh)
  then show ?case by (simp add: LoPriISR_CCP6_def Let_def split: prod.splits)
qed (simp_all add: main_go_edge_def main_publish_def HiPriISR_INT0_def HiPriISR_SSP1IF_def
      LoPriISR_ADIF_def LoPriISR_RBIF_def update_encoders_def LoPriISR_CCP7_def Let_def)

lemma reachable_main_loop_body: "reachable s \<Longrightarrow> reachable (main_loop_body s)"
  by (simp add: main_loop_body_def r_go_edge r_publish r_adc r_lost r_stop)

lemma reachable_sample_arrived: "reachable s \<Longrightarrow> reachable (sample_arrived s r)"
  by (simp add: sample_arrived_def reachable_main_loop_body r_ADIF)

lemma reachable_samples: "reachable s \<Longrightarrow> reachable (samples rs s)"
  by (induction rs arbitrary: s) (simp_all add: samples_def reachable_sample_arrived)

subsection \<open>The dispatch loops\<close>

declare HiPriISR.simps [simp del] LoPriISR.simps [simp del]

lemma reachable_HiPriISR: "reachable s \<Longrightarrow> reachable (HiPriISR RB0 s)"
proof (induction RB0 s rule: HiPriISR.induct)
  case (1 RB0 s)
  then show ?case
    by (subst HiPriISR.simps) (simp add: r_SSP1IF r_INT0)
qed

lemma reachable_LoPriISR:
  "reachable s \<Longrightarrow> LoPriISR gh bh result PORTB RB0 s = Some s1 \<Longrightarrow> reachable s1"
proof (induction gh bh result PORTB RB0 s rule: LoPriISR.induct)
  case (1 gh bh result PORTB RB0 s)
  have run: "LoPriISR gh bh result PORTB RB0 s = Some s1"
    and here: "reachable s" using "1.prems" by simp_all
  consider (adc) "ADIF s" | (enc) "\<not> ADIF s" "RBIF s"
    | (deb) "\<not> ADIF s" "\<not> RBIF s" "CCP7IF s \<and> CCP7IE s"
    | (dis) "\<not> ADIF s" "\<not> RBIF s" "\<not> (CCP7IF s \<and> CCP7IE s)" "CCP6IF s"
    | (con) "\<not> ADIF s" "\<not> RBIF s" "\<not> (CCP7IF s \<and> CCP7IE s)" "\<not> CCP6IF s" "CCP3IF s"
    | (idle) "\<not> ADIF s" "\<not> RBIF s" "\<not> (CCP7IF s \<and> CCP7IE s)" "\<not> CCP6IF s" "\<not> CCP3IF s"
    by blast
  then show ?case
  proof cases
    case adc
    with run have "LoPriISR gh bh result PORTB RB0 (LoPriISR_ADIF result s) = Some s1"
      by (subst (asm) LoPriISR.simps) simp
    with adc here show ?thesis by (intro "1.IH"(1)) (simp_all add: r_ADIF)
  next
    case enc
    with run have "LoPriISR gh bh result PORTB RB0 (LoPriISR_RBIF PORTB s) = Some s1"
      by (subst (asm) LoPriISR.simps) simp
    with enc here show ?thesis by (intro "1.IH"(2)) (simp_all add: r_RBIF)
  next
    case deb
    with run have "LoPriISR gh bh result PORTB RB0 (LoPriISR_CCP7 gh RB0 s) = Some s1"
      by (subst (asm) LoPriISR.simps) simp
    with deb here show ?thesis by (intro "1.IH"(3)) (simp_all add: r_CCP7)
  next
    case dis
    with run have "LoPriISR gh bh result PORTB RB0 (LoPriISR_CCP6 bh s) = Some s1"
      by (subst (asm) LoPriISR.simps) auto
    with dis here show ?thesis by (intro "1.IH"(4)) (simp_all add: r_CCP6)
  next
    case con
    with run obtain s2 where s2: "LoPriISR_CCP3 s = Some s2"
      "LoPriISR gh bh result PORTB RB0 s2 = Some s1"
      by (subst (asm) LoPriISR.simps) (auto split: option.splits)
    from here s2(1) have "reachable s2" by (rule r_CCP3)
    with con s2 show ?thesis by (intro "1.IH"(5)) simp_all
  next
    case idle
    with run have "s1 = s" by (subst (asm) LoPriISR.simps) auto
    with here show ?thesis by simp
  qed
qed

text \<open>
  With one source pending, the loops run the branch of that source once and stop.
\<close>

lemma HiPriISR_button:
  assumes "\<not> SSP1IF s" "INT0IF s"
  shows "HiPriISR RB0 s = HiPriISR_INT0 RB0 s"
proof -
  have "HiPriISR RB0 (HiPriISR_INT0 RB0 s) = HiPriISR_INT0 RB0 s"
    using assms by (subst HiPriISR.simps) (simp add: HiPriISR_INT0_def)
  with assms show ?thesis by (subst HiPriISR.simps) simp
qed

lemma LoPriISR_idle:
  assumes "\<not> ADIF s" "\<not> RBIF s" "\<not> (CCP7IF s \<and> CCP7IE s)" "\<not> CCP6IF s" "\<not> CCP3IF s"
  shows "LoPriISR gh bh result PORTB RB0 s = Some s"
  using assms by (subst LoPriISR.simps) auto

lemma LoPriISR_debounce:
  assumes "\<not> ADIF s" "\<not> RBIF s" "CCP7IF s" "CCP7IE s" "\<not> CCP6IF s" "\<not> CCP3IF s"
  shows "LoPriISR gh bh result PORTB RB0 s = Some (LoPriISR_CCP7 gh RB0 s)"
proof -
  have "LoPriISR gh bh result PORTB RB0 (LoPriISR_CCP7 gh RB0 s) = Some (LoPriISR_CCP7 gh RB0 s)"
    using assms by (intro LoPriISR_idle) (simp_all add: LoPriISR_CCP7_def Let_def)
  with assms show ?thesis by (subst LoPriISR.simps) simp
qed

lemma LoPriISR_control:
  assumes "\<not> ADIF s" "\<not> RBIF s" "\<not> (CCP7IF s \<and> CCP7IE s)" "\<not> CCP6IF s" "CCP3IF s"
  shows "LoPriISR gh bh result PORTB RB0 s = LoPriISR_CCP3 s"
proof (cases "LoPriISR_CCP3 s")
  case None
  with assms show ?thesis by (subst LoPriISR.simps) auto
next
  case (Some s1)
  then have "\<not> ADIF s1" "\<not> RBIF s1" "\<not> (CCP7IF s1 \<and> CCP7IE s1)" "\<not> CCP6IF s1" "\<not> CCP3IF s1"
    using assms
    by (auto simp add: LoPriISR_CCP3_def split: prod.splits option.splits if_splits)
  then have "LoPriISR gh bh result PORTB RB0 s1 = Some s1" by (rule LoPriISR_idle)
  with assms Some show ?thesis by (subst LoPriISR.simps) auto
qed

subsection \<open>The claims\<close>

text \<open>
  C1. The steering classifier realises the table of section 4.2. Pattern 001 gives right
  duty 50, left duty 0 and status normal (0); 011 gives (35, 15), 010 gives (25, 25),
  110 gives (15, 35) and 100 gives (0, 50), all normal. Patterns 000 and 101 give status
  lost (1) and pattern 111 gives status stop (2), and in these three cases the two duty
  cells are returned as they were passed in. The status is a function of the pattern
  alone, and the eight patterns are split between the three statuses as listed.
\<close>

theorem convert_array_to_inputs_table:
  "convert_array_to_inputs dR dL 1 = (Some 50, Some 0, Some 0)
   \<and> convert_array_to_inputs dR dL 3 = (Some 35, Some 15, Some 0)
   \<and> convert_array_to_inputs dR dL 2 = (Some 25, Some 25, Some 0)
   \<and> convert_array_to_inputs dR dL 6 = (Some 15, Some 35, Some 0)
   \<and> convert_array_to_inputs dR dL 4 = (Some 0, Some 50, Some 0)
   \<and> convert_array_to_inputs dR dL 0 = (dR, dL, Some 1)
   \<and> convert_array_to_inputs dR dL 5 = (dR, dL, Some 1)
   \<and> convert_array_to_inputs dR dL 7 = (dR, dL, Some 2)
   \<and> snd (snd (convert_array_to_inputs dR dL m)) = snd (snd (convert_array_to_inputs dR' dL' m))
   \<and> map (\<lambda>p. snd (snd (convert_array_to_inputs dR dL p))) [0, 1, 2, 3, 4, 5, 6, 7]
       = [Some 1, Some 0, Some 0, Some 0, Some 0, Some 1, Some 0, Some 2]"
  by (simp add: convert_array_to_inputs_def)








text \<open>
  C4, as amended. The button branch of the high-priority handler records the level of
  the button pin, disables the edge interrupt and enables the debounce timer. When the
  timer fires the pin is read again: if both readings are high, the go latch is passed
  once through \<^verbatim>\<open>go_button_handler\<close>, which inverts it; if both are low, or if they
  differ, the go latch keeps its value. In every case the timer interrupt is disabled
  again and the edge interrupt is enabled again.
\<close>

theorem debounce_latch:
  "INT0IE (HiPriISR_INT0 x s) = False
   \<and> CCP7IE (HiPriISR_INT0 x s) = True
   \<and> button_state_0 (HiPriISR_INT0 x s) = of_bool x
   \<and> go_flag (LoPriISR_CCP7 h True (HiPriISR_INT0 True s)) = h (go_flag s)
   \<and> go_flag (LoPriISR_CCP7 go_button_handler True (HiPriISR_INT0 True s)) \<noteq> go_flag s
   \<and> go_flag (LoPriISR_CCP7 h False (HiPriISR_INT0 False s)) = go_flag s
   \<and> go_flag (LoPriISR_CCP7 h (\<not> x) (HiPriISR_INT0 x s)) = go_flag s
   \<and> CCP7IE (LoPriISR_CCP7 h y t) = False
   \<and> CCP7IF (LoPriISR_CCP7 h y t) = False
   \<and> INT0IE (LoPriISR_CCP7 h y t) = True"
  by (simp add: HiPriISR_INT0_def LoPriISR_CCP7_def Let_def go_button_handler_def)

text \<open>
  Against C4 as stated: the pin is low when the edge arms the debouncer and still low
  when the timer fires, so the two readings agree, yet the go latch is not inverted.
\<close>

theorem debounce_latch_counterexample:
  "go_flag (LoPriISR_CCP7 go_button_handler False (HiPriISR_INT0 False state0)) = go_flag state0
   \<and> go_button_handler (go_flag state0) \<noteq> go_flag state0"
  by (simp add: HiPriISR_INT0_def LoPriISR_CCP7_def Let_def go_button_handler_def state0_fields)

text \<open>
  C5, as amended. A control period does one of three things, by the status of the
  classifier. Status normal: it drives the motors with the two duties and sets both
  counters to 0. Status lost: it adds 1 to \<open>count_lost\<close> and changes no other variable.
  Status stop: it adds 1 to \<open>count_stop\<close> and changes no other variable. So at most one
  counter is incremented in a period, while a normal period may change both by clearing
  them. The counters are 8-bit and the addition wraps at 256: over a run of \<open>n\<close>
  consecutive lost periods that does not take \<open>count_lost\<close> past 255 it grows by exactly
  \<open>n\<close> and \<open>count_stop\<close> keeps its value, and likewise for stop periods.
\<close>

theorem control_period_counters:
  "(convert_array_to_inputs None None (IR_meas_array s) = (dR, dL, Some 0) \<longrightarrow>
      (\<exists>r l. dR = Some r \<and> dL = Some l \<and>
         LoPriISR_CCP3 s = Some (s\<lparr>calls := calls s @ [Motors_drive r l],
           count_lost := 0, count_stop := 0, CCP3IF := False\<rparr>)))
   \<and> (convert_array_to_inputs None None (IR_meas_array s) = (dR, dL, Some 1) \<longrightarrow>
        LoPriISR_CCP3 s = Some (s\<lparr>count_lost := count_lost s + 1, CCP3IF := False\<rparr>))
   \<and> (convert_array_to_inputs None None (IR_meas_array s) = (dR, dL, Some 2) \<longrightarrow>
        LoPriISR_CCP3 s = Some (s\<lparr>count_stop := count_stop s + 1, CCP3IF := False\<rparr>))
   \<and> (snd (snd (convert_array_to_inputs None None (IR_meas_array s))) = Some 1
        \<and> unat (count_lost s) + n \<le> 255 \<longrightarrow>
        (\<exists>s1. control_periods n s = Some s1
           \<and> unat (count_lost s1) = unat (count_lost s) + n \<and> count_stop s1 = count_stop s))
   \<and> (snd (snd (convert_array_to_inputs None None (IR_meas_array s))) = Some 2
        \<and> unat (count_stop s) + n \<le> 255 \<longrightarrow>
        (\<exists>s1. control_periods n s = Some s1
           \<and> unat (count_stop s1) = unat (count_stop s) + n \<and> count_lost s1 = count_lost s))"
proof (intro conjI impI)
  assume "convert_array_to_inputs None None (IR_meas_array s) = (dR, dL, Some 0)"
  then show "\<exists>r l. dR = Some r \<and> dL = Some l \<and>
         LoPriISR_CCP3 s = Some (s\<lparr>calls := calls s @ [Motors_drive r l],
           count_lost := 0, count_stop := 0, CCP3IF := False\<rparr>)"
    by (rule CCP3_status_0)
next
  assume "convert_array_to_inputs None None (IR_meas_array s) = (dR, dL, Some 1)"
  then show "LoPriISR_CCP3 s = Some (s\<lparr>count_lost := count_lost s + 1, CCP3IF := False\<rparr>)"
    by (rule CCP3_status_1)
next
  assume "convert_array_to_inputs None None (IR_meas_array s) = (dR, dL, Some 2)"
  then show "LoPriISR_CCP3 s = Some (s\<lparr>count_stop := count_stop s + 1, CCP3IF := False\<rparr>)"
    by (rule CCP3_status_2)
next
  assume "snd (snd (convert_array_to_inputs None None (IR_meas_array s))) = Some 1
        \<and> unat (count_lost s) + n \<le> 255"
  then show "\<exists>s1. control_periods n s = Some s1
           \<and> unat (count_lost s1) = unat (count_lost s) + n \<and> count_stop s1 = count_stop s"
    by (simp add: status_lost_iff lost_run del: control_periods.simps)
next
  assume "snd (snd (convert_array_to_inputs None None (IR_meas_array s))) = Some 2
        \<and> unat (count_stop s) + n \<le> 255"
  then show "\<exists>s1. control_periods n s = Some s1
           \<and> unat (count_stop s1) = unat (count_stop s) + n \<and> count_lost s1 = count_lost s"
    by (simp add: status_stop_iff stop_run del: control_periods.simps)
qed

text \<open>
  The theorem at the centred pattern 010, at the lost pattern 000 for a run of 20
  periods, and at the stop pattern 111.
\<close>

theorem control_period_counters_witness:
  "convert_array_to_inputs None None (IR_meas_array (state0\<lparr>IR_meas_array := 2\<rparr>))
     = (Some 25, Some 25, Some 0)
   \<and> LoPriISR_CCP3 (state0\<lparr>IR_meas_array := 2\<rparr>)
     = Some (state0\<lparr>IR_meas_array := 2, calls := calls state0 @ [Motors_drive 25 25],
         count_lost := 0, count_stop := 0, CCP3IF := False\<rparr>)
   \<and> LoPriISR_CCP3 state0 = Some (state0\<lparr>count_lost := 1, CCP3IF := False\<rparr>)
   \<and> LoPriISR_CCP3 (state0\<lparr>IR_meas_array := 7\<rparr>)
     = Some (state0\<lparr>IR_meas_array := 7, count_stop := 1, CCP3IF := False\<rparr>)
   \<and> (\<exists>s1. control_periods 20 state0 = Some s1 \<and> unat (count_lost s1) = 20
         \<and> count_stop s1 = 0)"
  using control_period_counters [of "state0\<lparr>IR_meas_array := 2\<rparr>" "Some 25" "Some 25" 0]
    control_period_counters [of state0 None None 20]
    control_period_counters [of "state0\<lparr>IR_meas_array := 7\<rparr>" None None 0]
  by (simp add: state0_fields convert_array_to_inputs_def del: control_periods.simps)

text \<open>
  Against C5 as stated: after three lost and two stop periods the counters are 3 and 2,
  and a normal period then changes both of them; and a lost period at 255 takes
  \<open>count_lost\<close> down to 0.
\<close>

theorem control_period_counters_counterexample:
  "LoPriISR_CCP3 (state0\<lparr>IR_meas_array := 2, count_lost := 3, count_stop := 2\<rparr>)
     = Some (state0\<lparr>IR_meas_array := 2, count_lost := 0, count_stop := 0,
         calls := calls state0 @ [Motors_drive 25 25], CCP3IF := False\<rparr>)
   \<and> LoPriISR_CCP3 (state0\<lparr>count_lost := 255\<rparr>)
     = Some (state0\<lparr>count_lost := 0, CCP3IF := False\<rparr>)"
proof -
  have "convert_array_to_inputs None None 2 = (Some 25, Some 25, Some 0)"
    by (simp add: convert_array_to_inputs_def)
  then have "LoPriISR_CCP3 (state0\<lparr>IR_meas_array := 2, count_lost := 3, count_stop := 2\<rparr>)
     = Some (state0\<lparr>IR_meas_array := 2, count_lost := 0, count_stop := 0,
         calls := calls state0 @ [Motors_drive 25 25], CCP3IF := False\<rparr>)"
    by (simp add: LoPriISR_CCP3_def)
  moreover have "LoPriISR_CCP3 (state0\<lparr>count_lost := 255\<rparr>)
     = Some (state0\<lparr>count_lost := 0, CCP3IF := False\<rparr>)"
    using CCP3_lost [of "state0\<lparr>count_lost := 255\<rparr>"] by (simp add: state0_fields)
  ultimately show ?thesis by simp
qed

text \<open>
  C6, as amended. A round of the sampler takes three samples for each sensor, nine in
  all. Starting at the first sensor with the reading counter at 0, for any ring that
  visits the two other sensors and returns to the first, and for index fields that are
  distinct bit positions of the byte: after the nine samples the cursor is back at the
  first sensor with the counter at 0, and the pattern the main loop then publishes in
  \<open>IR_meas_array\<close> has, for each sensor, the bit at the sensor's own index field set
  exactly when the third and last sample of that sensor is at or above the cutoff 3500.
  The published byte is the accumulator \<open>IR_temp_array\<close> as the nine samples leave it,
  and the accumulator is given after every sample: the first sample of a sensor leaves
  it as it is, so it is never binarised; the second sample writes the bit of the sensor,
  set if the sample is at or above 3500 and cleared otherwise; the third sample writes
  the same bit again, over what the second wrote.
  The main loop writes \<open>IR_meas_array\<close> only when the read cursor is at the first sensor
  with the counter at 0, and throughout the round \<open>IR_meas_array\<close> holds the pattern
  published at its start.
\<close>

theorem published_pattern:
  assumes start: "sensor_read s = IR_1" "sensor_next s = IR_1" "adc_reading_number s = 0"
    and ring: "next_sensor (IR s IR_1) = a" "next_sensor (IR s a) = b"
      "next_sensor (IR s b) = IR_1" "a \<noteq> IR_1" "b \<noteq> IR_1"
    and idx: "index (IR s IR_1) < 8" "index (IR s a) < 8" "index (IR s b) < 8"
      "index (IR s IR_1) \<noteq> index (IR s a)" "index (IR s IR_1) \<noteq> index (IR s b)"
      "index (IR s a) \<noteq> index (IR s b)"
  shows "sensor_read (samples [r1, r2, r3, r4, r5, r6, r7, r8, r9] s) = IR_1
    \<and> adc_reading_number (samples [r1, r2, r3, r4, r5, r6, r7, r8, r9] s) = 0
    \<and> (bit (IR_meas_array (main_loop_body (samples [r1, r2, r3, r4, r5, r6, r7, r8, r9] s)))
          (index (IR s IR_1)) \<longleftrightarrow> 3500 \<le> sint r3)
    \<and> (bit (IR_meas_array (main_loop_body (samples [r1, r2, r3, r4, r5, r6, r7, r8, r9] s)))
          (index (IR s a)) \<longleftrightarrow> 3500 \<le> sint r6)
    \<and> (bit (IR_meas_array (main_loop_body (samples [r1, r2, r3, r4, r5, r6, r7, r8, r9] s)))
          (index (IR s b)) \<longleftrightarrow> 3500 \<le> sint r9)
    \<and> (\<forall>k. 1 \<le> k \<and> k \<le> 9 \<longrightarrow>
          IR_meas_array (samples (take k [r1, r2, r3, r4, r5, r6, r7, r8, r9]) s)
            = IR_temp_array s)
    \<and> IR_meas_array (main_loop_body t) =
          (if sensor_read t = IR_1 \<and> adc_reading_number t = 0 then IR_temp_array t
           else IR_meas_array t)
    \<and> IR_meas_array (main_loop_body (samples [r1, r2, r3, r4, r5, r6, r7, r8, r9] s)) =
         IR_temp_array (samples [r1, r2, r3, r4, r5, r6, r7, r8, r9] s)
    \<and> IR_temp_array (samples [r1] s) = IR_temp_array s
    \<and> IR_temp_array (samples [r1, r2] s) =
         (if 3500 \<le> sint r2 then IR_temp_array s OR push_bit (index (IR s IR_1)) 1
          else IR_temp_array s AND NOT (push_bit (index (IR s IR_1)) 1))
    \<and> IR_temp_array (samples [r1, r2, r3] s) =
         (if 3500 \<le> sint r3 then IR_temp_array (samples [r1, r2] s) OR push_bit (index (IR s IR_1)) 1
          else IR_temp_array (samples [r1, r2] s) AND NOT (push_bit (index (IR s IR_1)) 1))
    \<and> IR_temp_array (samples [r1, r2, r3, r4] s) = IR_temp_array (samples [r1, r2, r3] s)
    \<and> IR_temp_array (samples [r1, r2, r3, r4, r5] s) =
         (if 3500 \<le> sint r5 then IR_temp_array (samples [r1, r2, r3] s) OR push_bit (index (IR s a)) 1
          else IR_temp_array (samples [r1, r2, r3] s) AND NOT (push_bit (index (IR s a)) 1))
    \<and> IR_temp_array (samples [r1, r2, r3, r4, r5, r6] s) =
         (if 3500 \<le> sint r6 then IR_temp_array (samples [r1, r2, r3, r4, r5] s) OR push_bit (index (IR s a)) 1
          else IR_temp_array (samples [r1, r2, r3, r4, r5] s) AND NOT (push_bit (index (IR s a)) 1))
    \<and> IR_temp_array (samples [r1, r2, r3, r4, r5, r6, r7] s) = IR_temp_array (samples [r1, r2, r3, r4, r5, r6] s)
    \<and> IR_temp_array (samples [r1, r2, r3, r4, r5, r6, r7, r8] s) =
         (if 3500 \<le> sint r8 then IR_temp_array (samples [r1, r2, r3, r4, r5, r6] s) OR push_bit (index (IR s b)) 1
          else IR_temp_array (samples [r1, r2, r3, r4, r5, r6] s) AND NOT (push_bit (index (IR s b)) 1))
    \<and> IR_temp_array (samples [r1, r2, r3, r4, r5, r6, r7, r8, r9] s) =
         (if 3500 \<le> sint r9 then IR_temp_array (samples [r1, r2, r3, r4, r5, r6, r7, r8] s) OR push_bit (index (IR s b)) 1
          else IR_temp_array (samples [r1, r2, r3, r4, r5, r6, r7, r8] s) AND NOT (push_bit (index (IR s b)) 1))"
proof -
  note round = sensor_round [OF start ring]
  note temp = sensor_round_temp [OF start ring]
  have "bit (IR_meas_array (main_loop_body (samples [r1, r2, r3, r4, r5, r6, r7, r8, r9] s)))
          (index (IR s IR_1)) \<longleftrightarrow> 3500 \<le> sint r3"
    using idx by (simp add: round(7))
  moreover have
    "bit (IR_meas_array (main_loop_body (samples [r1, r2, r3, r4, r5, r6, r7, r8, r9] s)))
          (index (IR s a)) \<longleftrightarrow> 3500 \<le> sint r6"
    using idx by (simp add: round(7))
  moreover have
    "bit (IR_meas_array (main_loop_body (samples [r1, r2, r3, r4, r5, r6, r7, r8, r9] s)))
          (index (IR s b)) \<longleftrightarrow> 3500 \<le> sint r9"
    using idx by (simp add: round(7))
  ultimately have pattern:
    "sensor_read (samples [r1, r2, r3, r4, r5, r6, r7, r8, r9] s) = IR_1
    \<and> adc_reading_number (samples [r1, r2, r3, r4, r5, r6, r7, r8, r9] s) = 0
    \<and> (bit (IR_meas_array (main_loop_body (samples [r1, r2, r3, r4, r5, r6, r7, r8, r9] s)))
          (index (IR s IR_1)) \<longleftrightarrow> 3500 \<le> sint r3)
    \<and> (bit (IR_meas_array (main_loop_body (samples [r1, r2, r3, r4, r5, r6, r7, r8, r9] s)))
          (index (IR s a)) \<longleftrightarrow> 3500 \<le> sint r6)
    \<and> (bit (IR_meas_array (main_loop_body (samples [r1, r2, r3, r4, r5, r6, r7, r8, r9] s)))
          (index (IR s b)) \<longleftrightarrow> 3500 \<le> sint r9)
    \<and> (\<forall>k. 1 \<le> k \<and> k \<le> 9 \<longrightarrow>
          IR_meas_array (samples (take k [r1, r2, r3, r4, r5, r6, r7, r8, r9]) s)
            = IR_temp_array s)
    \<and> IR_meas_array (main_loop_body t) =
          (if sensor_read t = IR_1 \<and> adc_reading_number t = 0 then IR_temp_array t
           else IR_meas_array t)"
    using round(1) round(3) round(8) by (simp add: main_loop_body_publish)
  have pub: "IR_meas_array (main_loop_body (samples [r1, r2, r3, r4, r5, r6, r7, r8, r9] s)) =
       IR_temp_array (samples [r1, r2, r3, r4, r5, r6, r7, r8, r9] s)"
    using round(1) round(3) by (simp add: main_loop_body_publish)
  from pattern pub temp show ?thesis
    by (elim conjE) (intro conjI; assumption)
qed

text \<open>
  The theorem at the initial state with the ring of \<^verbatim>\<open>init\<close>: the third sample of the
  first and of the third sensor is at or above the cutoff, and bits 0 and 2 are
  published; the first sample, 4000, leaves the accumulator at 0.
\<close>

theorem published_pattern_witness:
  "sensor_read state0 = IR_1 \<and> sensor_next state0 = IR_1 \<and> adc_reading_number state0 = 0
   \<and> next_sensor (IR state0 IR_1) = IR_2 \<and> next_sensor (IR state0 IR_2) = IR_3
   \<and> next_sensor (IR state0 IR_3) = IR_1
   \<and> bit (IR_meas_array (main_loop_body
         (samples [4000, 0, 4000, 0, 4000, 0, 4000, 0, 3500] state0))) 0
   \<and> \<not> bit (IR_meas_array (main_loop_body
         (samples [4000, 0, 4000, 0, 4000, 0, 4000, 0, 3500] state0))) 1
   \<and> bit (IR_meas_array (main_loop_body
         (samples [4000, 0, 4000, 0, 4000, 0, 4000, 0, 3500] state0))) 2
   \<and> IR_temp_array (samples [4000] state0) = 0
   \<and> IR_temp_array (samples [4000, 0] state0) = 0
   \<and> IR_temp_array (samples [4000, 0, 4000] state0) = 1"
proof -
  note P = published_pattern [of state0 IR_2 IR_3 4000 0 4000 0 4000 0 4000 0 3500 state0]
  have hyp: "sensor_read state0 = IR_1" "sensor_next state0 = IR_1"
    "adc_reading_number state0 = 0"
    "next_sensor (IR state0 IR_1) = IR_2" "next_sensor (IR state0 IR_2) = IR_3"
    "next_sensor (IR state0 IR_3) = IR_1" "IR_2 \<noteq> IR_1" "IR_3 \<noteq> IR_1"
    "index (IR state0 IR_1) < 8" "index (IR state0 IR_2) < 8" "index (IR state0 IR_3) < 8"
    "index (IR state0 IR_1) \<noteq> index (IR state0 IR_2)"
    "index (IR state0 IR_1) \<noteq> index (IR state0 IR_3)"
    "index (IR state0 IR_2) \<noteq> index (IR state0 IR_3)"
    by (simp_all add: state0_fields)
  note Q = P [OF hyp]
  have bits: "bit (IR_meas_array (main_loop_body
         (samples [4000, 0, 4000, 0, 4000, 0, 4000, 0, 3500] state0))) 0"
    "\<not> bit (IR_meas_array (main_loop_body
         (samples [4000, 0, 4000, 0, 4000, 0, 4000, 0, 3500] state0))) 1"
    "bit (IR_meas_array (main_loop_body
         (samples [4000, 0, 4000, 0, 4000, 0, 4000, 0, 3500] state0))) 2"
    using Q [THEN conjunct2, THEN conjunct2, THEN conjunct1]
      Q [THEN conjunct2, THEN conjunct2, THEN conjunct2, THEN conjunct1]
      Q [THEN conjunct2, THEN conjunct2, THEN conjunct2, THEN conjunct2, THEN conjunct1]
    by (simp_all add: state0_fields)
  note R = Q [THEN conjunct2, THEN conjunct2, THEN conjunct2, THEN conjunct2, THEN conjunct2,
    THEN conjunct2, THEN conjunct2, THEN conjunct2]
  have t1: "IR_temp_array (samples [4000] state0) = 0"
    using R [THEN conjunct1] by (simp add: state0_fields)
  have t2: "IR_temp_array (samples [4000, 0] state0) = 0"
    using R [THEN conjunct2, THEN conjunct1] by (simp add: state0_fields)
  have t3: "IR_temp_array (samples [4000, 0, 4000] state0) = 1"
    using R [THEN conjunct2, THEN conjunct2, THEN conjunct1] t2 by (simp add: state0_fields)
  show ?thesis
    using hyp(1-6) bits t1 t2 t3 by simp
qed

text \<open>
  Against C6 as stated: the second sample of every sensor is above the cutoff and the
  third is below, and no bit of the published pattern is set.
\<close>

theorem published_pattern_counterexample:
  "3500 \<le> sint (4000 :: short16)
   \<and> \<not> bit (IR_meas_array (main_loop_body
         (samples [0, 4000, 0, 0, 4000, 0, 0, 4000, 0] state0))) (index (IR state0 IR_1))
   \<and> \<not> bit (IR_meas_array (main_loop_body
         (samples [0, 4000, 0, 0, 4000, 0, 0, 4000, 0] state0))) (index (IR state0 IR_2))
   \<and> \<not> bit (IR_meas_array (main_loop_body
         (samples [0, 4000, 0, 0, 4000, 0, 0, 4000, 0] state0))) (index (IR state0 IR_3))"
  using sensor_round(7) [of state0 IR_2 IR_3 0 4000 0 0 4000 0 0 4000 0 0]
    sensor_round(7) [of state0 IR_2 IR_3 0 4000 0 0 4000 0 0 4000 0 1]
    sensor_round(7) [of state0 IR_2 IR_3 0 4000 0 0 4000 0 0 4000 0 2]
  by (simp add: state0_fields)

text \<open>
  C7, as amended. \<^verbatim>\<open>update_sensor\<close>: if the next cursor differs from the read cursor,
  the read cursor adopts it and 0 is returned; otherwise, if the counter passed in equals
  \<^verbatim>\<open>READINGS_MAX\<close>, which is 2, the next cursor moves to the ring successor and the
  counter is returned unchanged; otherwise nothing changes. Consequently, from a sensor
  whose successor is another sensor, the first sample changes no cursor, the second
  moves the next cursor only, and the third moves the read cursor and resets the counter:
  the read cursor stays on a sensor for three samples.
\<close>

theorem update_sensor_rule:
  "(sensor_next s \<noteq> sensor_read s \<longrightarrow>
      update_sensor n s = (0, s\<lparr>sensor_read := sensor_next s\<rparr>))
   \<and> (sensor_next s = sensor_read s \<and> n = READINGS_MAX \<longrightarrow>
      update_sensor n s = (n, s\<lparr>sensor_next := next_sensor (IR s (sensor_read s))\<rparr>))
   \<and> (sensor_next s = sensor_read s \<and> n \<noteq> READINGS_MAX \<longrightarrow> update_sensor n s = (n, s))
   \<and> READINGS_MAX = 2
   \<and> (adc_reading_number s = 0 \<and> sensor_next s = sensor_read s
        \<and> next_sensor (IR s (sensor_read s)) \<noteq> sensor_read s \<longrightarrow>
        sensor_read (samples [r1] s) = sensor_read s
      \<and> sensor_next (samples [r1] s) = sensor_read s
      \<and> adc_reading_number (samples [r1] s) = 1
      \<and> sensor_read (samples [r1, r2] s) = sensor_read s
      \<and> sensor_next (samples [r1, r2] s) = next_sensor (IR s (sensor_read s))
      \<and> adc_reading_number (samples [r1, r2] s) = 2
      \<and> sensor_read (samples [r1, r2, r3] s) = next_sensor (IR s (sensor_read s))
      \<and> sensor_next (samples [r1, r2, r3] s) = next_sensor (IR s (sensor_read s))
      \<and> adc_reading_number (samples [r1, r2, r3] s) = 0)"
  by (simp add: update_sensor_def READINGS_MAX_def sensor_triple sensor_triple_mid)

text \<open>
  The theorem at the initial state, and at a state whose next cursor is already ahead.
\<close>

theorem update_sensor_rule_witness:
  "sensor_next (state0\<lparr>sensor_next := IR_2\<rparr>) \<noteq> sensor_read (state0\<lparr>sensor_next := IR_2\<rparr>)
   \<and> update_sensor 3 (state0\<lparr>sensor_next := IR_2\<rparr>)
       = (0, state0\<lparr>sensor_next := IR_2, sensor_read := IR_2\<rparr>)
   \<and> sensor_next state0 = sensor_read state0
   \<and> update_sensor 2 state0 = (2, state0\<lparr>sensor_next := IR_2\<rparr>)
   \<and> update_sensor 1 state0 = (1, state0)
   \<and> adc_reading_number state0 = 0
   \<and> next_sensor (IR state0 (sensor_read state0)) \<noteq> sensor_read state0
   \<and> sensor_read (samples [0, 0] state0) = IR_1
   \<and> sensor_next (samples [0, 0] state0) = IR_2
   \<and> sensor_read (samples [0, 0, 0] state0) = IR_2"
proof -
  note A = update_sensor_rule [of "state0\<lparr>sensor_next := IR_2\<rparr>" 3 0 0 0]
  note B = update_sensor_rule [of state0 2 0 0 0]
  note C = update_sensor_rule [of state0 1 0 0 0]
  have a: "update_sensor 3 (state0\<lparr>sensor_next := IR_2\<rparr>)
       = (0, state0\<lparr>sensor_next := IR_2, sensor_read := IR_2\<rparr>)"
    using A [THEN conjunct1] by (simp add: state0_fields)
  have b: "update_sensor 2 state0 = (2, state0\<lparr>sensor_next := IR_2\<rparr>)"
    using B [THEN conjunct2, THEN conjunct1] by (simp add: state0_fields READINGS_MAX_def)
  have c: "update_sensor 1 state0 = (1, state0)"
    using C [THEN conjunct2, THEN conjunct2, THEN conjunct1]
    by (simp add: state0_fields READINGS_MAX_def)
  have d: "sensor_read (samples [0, 0] state0) = IR_1"
    "sensor_next (samples [0, 0] state0) = IR_2"
    "sensor_read (samples [0, 0, 0] state0) = IR_2"
    using B [THEN conjunct2, THEN conjunct2, THEN conjunct2, THEN conjunct2]
    by (simp_all add: state0_fields)
  show ?thesis
    by (simp add: a b c d) (simp add: state0_fields)
qed

text \<open>
  Against C7 as stated: after two samples the read cursor is still on the first sensor
  and the counter is 2, the third sample is binarised into the bit of the first sensor,
  and after six samples both cursors are on the third sensor, not back on the first.
\<close>

theorem update_sensor_rule_counterexample:
  "sensor_read (samples [0, 0] state0) = IR_1
   \<and> adc_reading_number (samples [0, 0] state0) = 2
   \<and> bit (IR_temp_array (samples [0, 0, 4000] state0)) (index (IR state0 IR_1))
   \<and> sensor_read (samples [0, 0, 4000] state0) = IR_2
   \<and> sensor_read (samples [0, 0, 0, 0, 0, 0] state0) = IR_3
   \<and> sensor_next (samples [0, 0, 0, 0, 0, 0] state0) = IR_3"
  using sensor_triple_mid(2) [of state0 0 0] sensor_triple_mid(4) [of state0 0 0]
    sensor_triple(2) [of state0 0 0 4000] sensor_triple(6) [of state0 0 0 4000 0]
    sensor_round(5) [of state0 IR_2 IR_3 0 0 0 0 0 0]
    sensor_round(6) [of state0 IR_2 IR_3 0 0 0 0 0 0]
  by (simp add: state0_fields)

text \<open>
  C8, as amended. In the 16-entry table, indexed by four times the old pin pair plus the
  new pin pair, every transition that changes both bits and every transition that changes
  none has increment 0, every transition that changes one bit has increment 1 or -1, and
  swapping old and new pair negates the entry. The history sequence
  0b0001, 0b0111, 0b1110, 0b1000 has the net increment -4 and the sequence of the swapped
  histories has +4; fed through \<^verbatim>\<open>update_encoders\<close> as the pin pairs 01, 11, 10, 00
  after a pair 00, the tick count of the first wheel goes down by 4, and up by 4 for the
  opposite order 10, 11, 01, 00.
\<close>

theorem lookup_table_transitions:
  "(\<forall>old<4. \<forall>new<4.
       ((old = new \<or> old XOR new = 3) \<longrightarrow> lookup_table ! (4 * old + new) = 0)
     \<and> ((old XOR new = 1 \<or> old XOR new = 2) \<longrightarrow>
          (lookup_table ! (4 * old + new) = 1 \<or> lookup_table ! (4 * old + new) = - 1))
     \<and> lookup_table ! (4 * new + old) = - (lookup_table ! (4 * old + new)))
   \<and> length lookup_table = 16
   \<and> lookup_table ! 0b0001 + lookup_table ! 0b0111 + lookup_table ! 0b1110
        + lookup_table ! 0b1000 = - 4
   \<and> lookup_table ! 0b0100 + lookup_table ! 0b1101 + lookup_table ! 0b1011
        + lookup_table ! 0b0010 = 4
   \<and> count (encoder_A (update_encoders PORTB s)) =
        count (encoder_A s) + lookup_table !
          unat (push_bit 2 (reading (encoder_A s) AND 3) OR (drop_bit 4 (PORTB AND 0xF0) AND 3))
   \<and> (reading (encoder_A s) AND 3 = 0 \<longrightarrow>
        count (encoder_A (foldl (\<lambda>s p. update_encoders p s) s [0x10, 0x30, 0x20, 0x00]))
          = count (encoder_A s) - 4
      \<and> count (encoder_A (foldl (\<lambda>s p. update_encoders p s) s [0x20, 0x30, 0x10, 0x00]))
          = count (encoder_A s) + 4)"
proof -
  have "\<forall>old<4. \<forall>new<4.
       ((old = new \<or> old XOR new = 3) \<longrightarrow> lookup_table ! (4 * old + new) = 0)
     \<and> ((old XOR new = 1 \<or> old XOR new = 2) \<longrightarrow>
          (lookup_table ! (4 * old + new) = 1 \<or> lookup_table ! (4 * old + new) = - 1))
     \<and> lookup_table ! (4 * new + old) = - (lookup_table ! (4 * old + new))"
    using table_entries by blast
  moreover have "length lookup_table = 16"
    "lookup_table ! 0b0001 + lookup_table ! 0b0111 + lookup_table ! 0b1110
        + lookup_table ! 0b1000 = - 4"
    "lookup_table ! 0b0100 + lookup_table ! 0b1101 + lookup_table ! 0b1011
        + lookup_table ! 0b0010 = 4"
    by (simp_all add: lookup_table_def)
  ultimately show ?thesis
    using update_encoders_count [of PORTB s] forward_cycle [of s] backward_cycle [of s]
    by blast
qed

text \<open>
  The theorem at the transition from pair 01 to pair 11 and at the initial state.
\<close>

theorem lookup_table_transitions_witness:
  "(1 :: nat) < 4 \<and> (3 :: nat) < 4
   \<and> lookup_table ! (4 * 3 + 1) = - (lookup_table ! (4 * 1 + 3))
   \<and> reading (encoder_A state0) AND 3 = 0
   \<and> count (encoder_A (foldl (\<lambda>s p. update_encoders p s) state0 [0x10, 0x30, 0x20, 0x00]))
        = count (encoder_A state0) - 4
   \<and> count (encoder_A (foldl (\<lambda>s p. update_encoders p s) state0 [0x20, 0x30, 0x10, 0x00]))
        = count (encoder_A state0) + 4"
proof -
  note T = lookup_table_transitions [of 0 state0]
  have "lookup_table ! (4 * 3 + 1) = - (lookup_table ! (4 * 1 + 3))"
    using T [THEN conjunct1, rule_format, of 1 3] by simp
  moreover have low: "reading (encoder_A state0) AND 3 = 0"
    by (simp add: state0_fields)
  moreover have
    "count (encoder_A (foldl (\<lambda>s p. update_encoders p s) state0 [0x10, 0x30, 0x20, 0x00]))
        = count (encoder_A state0) - 4
     \<and> count (encoder_A (foldl (\<lambda>s p. update_encoders p s) state0 [0x20, 0x30, 0x10, 0x00]))
        = count (encoder_A state0) + 4"
    using T low by blast
  ultimately show ?thesis by simp
qed

text \<open>
  Against C8 as stated: the forward sequence has the net increment -4, which is neither
  0 nor positive.
\<close>

theorem lookup_table_transitions_counterexample:
  "lookup_table ! 0b0001 + lookup_table ! 0b0111 + lookup_table ! 0b1110
      + lookup_table ! 0b1000 = - 4
   \<and> count (encoder_A (foldl (\<lambda>s p. update_encoders p s) state0 [0x10, 0x30, 0x20, 0x00]))
      - count (encoder_A state0) = - 4"
  using forward_cycle [of state0]
  by (simp add: state0_fields) (simp add: lookup_table_def)

text \<open>
  C9. A call of \<^verbatim>\<open>update_encoders\<close> changes the encoder of the first wheel only: it
  shifts bits 5 and 4 of PORTB into \<open>encoder_A.reading\<close> and adds the table entry at the
  low four bits of the new history to \<open>encoder_A.count\<close>. \<open>encoder_B\<close>, its history and
  its tick count, are unchanged by one call, by the handler branch that makes the call,
  and by any sequence of calls.
\<close>

theorem update_encoders_first_wheel_only:
  "update_encoders PORTB s =
     s\<lparr>encoder_A := (encoder_A s)\<lparr>
        reading := push_bit 2 (reading (encoder_A s)) OR (drop_bit 4 (PORTB AND 0xF0) AND 3),
        count := count (encoder_A s) + lookup_table !
          unat ((push_bit 2 (reading (encoder_A s)) OR (drop_bit 4 (PORTB AND 0xF0) AND 3))
                AND 0x0F)\<rparr>\<rparr>
   \<and> encoder_B (update_encoders PORTB s) = encoder_B s
   \<and> reading (encoder_B (update_encoders PORTB s)) = reading (encoder_B s)
   \<and> count (encoder_B (update_encoders PORTB s)) = count (encoder_B s)
   \<and> encoder_B (LoPriISR_RBIF PORTB s) = encoder_B s
   \<and> encoder_B (foldl (\<lambda>s p. update_encoders p s) s ps) = encoder_B s"
  by (simp add: update_encoders_run_B update_encoders_B LoPriISR_RBIF_def)
     (simp add: update_encoders_def Let_def)

text \<open>
  C10. In every reachable state the index fields of the three sensors are 0, 1 and 2 and
  the two measurement bytes \<open>IR_temp_array\<close> and \<open>IR_meas_array\<close> are at most 7. Hence
  the classifier, called on \<open>IR_meas_array\<close>, returns an assigned status 0, 1 or 2, and
  the control branch, which reads that status, is defined.
\<close>

theorem measurement_in_range:
  assumes "reachable s"
  shows "index (IR s IR_1) = 0 \<and> index (IR s IR_2) = 1 \<and> index (IR s IR_3) = 2
    \<and> IR_temp_array s \<le> 7 \<and> IR_meas_array s \<le> 7
    \<and> snd (snd (convert_array_to_inputs dR dL (IR_meas_array s))) \<in> {Some 0, Some 1, Some 2}
    \<and> LoPriISR_CCP3 s \<noteq> None"
proof -
  from assms have inv: "IR s = IR_structs" "IR_temp_array s \<le> 7" "IR_meas_array s \<le> 7"
    by (simp_all add: reachable_le7)
  from inv(3) have
    "snd (snd (convert_array_to_inputs dR dL (IR_meas_array s))) \<in> {Some 0, Some 1, Some 2}"
    by (rule status_assigned)
  moreover from inv(3) have "LoPriISR_CCP3 s \<noteq> None"
    by (rule CCP3_defined)
  ultimately show ?thesis
    using inv by simp
qed

text \<open>
  The theorem at the state reached from the initial state by three samples, the third
  above the cutoff.
\<close>

theorem measurement_in_range_witness:
  "reachable (samples [0, 0, 4000] state0)
   \<and> IR_temp_array (samples [0, 0, 4000] state0) \<le> 7
   \<and> IR_meas_array (samples [0, 0, 4000] state0) \<le> 7
   \<and> LoPriISR_CCP3 (samples [0, 0, 4000] state0) \<noteq> None"
proof -
  have r: "reachable (samples [0, 0, 4000] state0)"
    by (simp add: reachable_samples r_initial initial_state0)
  show ?thesis
    using r measurement_in_range [OF r] by simp
qed

end
